theory Spec2Isabelle
  imports Main "HOL-Library.AList" "HOL-Library.Sublist"
begin

section \<open>Strings and number formatting\<close>

text \<open>
  JavaScript strings are modelled as \<open>string\<close>: one \<open>char\<close> per UTF-16 code unit,
  restricted to the code units below 256. Error objects are modelled by their
  \<open>message\<close> text.
\<close>

type_synonym message = string

definition newline :: char where
  "newline = CHR 0x0A"

definition dquote :: char where
  "dquote = CHR 0x22"

definition digit :: "nat \<Rightarrow> char" where
  "digit n = ''0123456789'' ! n"

text \<open>Decimal rendering of a number inside a template literal.\<close>

function show_nat :: "nat \<Rightarrow> string" where
  "show_nat n = (if n < 10 then [digit n] else show_nat (n div 10) @ [digit (n mod 10)])"
  by pat_completeness auto
termination
  by (relation "measure (\<lambda>n. n)") auto

declare show_nat.simps [simp del]

definition show_int :: "int \<Rightarrow> string" where
  "show_int i = (if i < 0 then CHR ''-'' # show_nat (nat (- i)) else show_nat (nat i))"

text \<open>\<open>`${code}`\<close> for the exit code of a child process: \<open>null\<close> when a signal ended it.\<close>

definition show_code :: "int option \<Rightarrow> string" where
  "show_code code = (case code of None \<Rightarrow> ''null'' | Some c \<Rightarrow> show_int c)"

section \<open>TaskManager.ts: the data model\<close>

datatype TaskStatus = Pending | Running | Completed | Failed | Cancelled

datatype AgentType = Claude | Gemini

record Task =
  task_id :: string
  agent :: AgentType
  prompt :: string
  status :: TaskStatus
  progress :: int
  task_output :: string
  createdAt :: nat
  completedAt :: "nat option"
  error :: "message option"

section \<open>CLIExecutor.ts\<close>

datatype ProgressType = OutputP | ErrorP | CompleteP

record TaskProgress =
  ptype :: ProgressType
  data :: string
  timestamp :: nat

text \<open>
  The fields of a \<open>CLIExecutor\<close>. \<open>process\<close> is true while \<open>this.process\<close> is not
  null; \<open>kills\<close> counts the termination signals sent to the child (\<open>taskkill\<close> or
  \<open>SIGTERM\<close>), which the source does not store.
\<close>

record CLIExecutor =
  command :: string
  args :: "string list"
  process :: bool
  exec_output :: string
  exec_isRunning :: bool
  kills :: nat

definition new_CLIExecutor :: "string \<Rightarrow> string list \<Rightarrow> CLIExecutor" where
  "new_CLIExecutor c a =
     \<lparr>command = c, args = a, process = False, exec_output = [], exec_isRunning = False, kills = 0\<rparr>"

text \<open>The synchronous part of \<open>execute\<close>: the flags are set and the child is spawned.\<close>

definition execute_spawn :: "CLIExecutor \<Rightarrow> CLIExecutor" where
  "execute_spawn e = e\<lparr>exec_isRunning := True, exec_output := [], process := True\<rparr>"

definition cancel :: "CLIExecutor \<Rightarrow> CLIExecutor" where
  "cancel e =
     (if process e \<and> exec_isRunning e then e\<lparr>kills := kills e + 1, exec_isRunning := False\<rparr>
      else e)"

section \<open>TaskManager.ts: the registry\<close>

text \<open>
  Task objects live in a store (\<open>heap\<close>, addressed by position) because the registry
  and its callers hold references to the same objects. \<open>tasks\<close> and \<open>executors\<close>
  are the two \<open>Map\<close>s, in insertion order.

  One \<open>call\<close> stands for one invocation of \<open>executeTask\<close> that has reached its
  \<open>await\<close>: the captured \<open>taskId\<close> and \<open>task\<close>, the executor it created (none in
  daemon mode), whether the timeout timer is still armed, and how the promise returned
  by \<open>executeTask\<close> has settled (\<open>Inl\<close> rejected with that message, \<open>Inr\<close> resolved
  with that text). \<open>executors\<close> maps a task id to the call that owns the executor.

  Output channels and the emitted notifications are write-only sinks and are left out;
  listeners are taken to neither throw nor mutate.
\<close>

record call =
  c_taskId :: string
  c_task :: nat
  c_executor :: "CLIExecutor option"
  c_timer :: bool
  c_result :: "(message + string) option"

record TaskManager =
  heap :: "Task list"
  tasks :: "(string \<times> nat) list"
  executors :: "(string \<times> nat) list"
  calls :: "call list"
  taskIdCounter :: nat

record Config =
  useDaemon :: bool
  claudePath :: string
  geminiPath :: string

definition new_TaskManager :: TaskManager where
  "new_TaskManager = \<lparr>heap = [], tasks = [], executors = [], calls = [], taskIdCounter = 0\<rparr>"

definition deref :: "TaskManager \<Rightarrow> nat \<Rightarrow> Task" where
  "deref s r = heap s ! r"

definition modify :: "nat \<Rightarrow> (Task \<Rightarrow> Task) \<Rightarrow> TaskManager \<Rightarrow> TaskManager" where
  "modify r f s = s\<lparr>heap := (heap s)[r := f (heap s ! r)]\<rparr>"

definition modify_call :: "nat \<Rightarrow> (call \<Rightarrow> call) \<Rightarrow> TaskManager \<Rightarrow> TaskManager" where
  "modify_call i f s = s\<lparr>calls := (calls s)[i := f (calls s ! i)]\<rparr>"

definition generateTaskId :: "nat \<Rightarrow> TaskManager \<Rightarrow> string \<times> TaskManager" where
  "generateTaskId now s =
     (let c = taskIdCounter s + 1
      in (''task-'' @ show_nat c @ ''-'' @ show_nat now, s\<lparr>taskIdCounter := c\<rparr>))"

text \<open>
  \<open>createTask\<close> returns the reference it stored in \<open>tasks\<close>. Its two readings of
  the clock, for the id and for \<open>createdAt\<close>, are taken to agree.
\<close>

definition createTask :: "AgentType \<Rightarrow> string \<Rightarrow> nat \<Rightarrow> TaskManager \<Rightarrow> nat \<times> TaskManager" where
  "createTask a p now s =
     (let (tid, s1) = generateTaskId now s;
          task = \<lparr>task_id = tid, agent = a, prompt = p, status = Pending, progress = 0,
                  task_output = [], createdAt = now, completedAt = None, error = None\<rparr>;
          r = length (heap s1)
      in (r, s1\<lparr>heap := heap s1 @ [task], tasks := AList.update tid r (tasks s1)\<rparr>))"

definition buildArgs :: "AgentType \<Rightarrow> string \<Rightarrow> string list" where
  "buildArgs a p =
     (if a = Claude then [p, ''-p'', ''--output-format'', ''text'']
      else [''-p'', p, ''--output-format'', ''stream-json'', ''--yolo''])"

text \<open>
  \<open>executeTask\<close> up to its \<open>await\<close>. An unknown id rejects at once. Otherwise the task
  is set running and a call is recorded: in daemon mode the prompt goes to the daemon
  and no executor is tracked; otherwise an executor is created, stored under the task
  id and started with a timeout.
\<close>

definition executeTask_begin :: "Config \<Rightarrow> string \<Rightarrow> TaskManager \<Rightarrow> message + (nat \<times> TaskManager)" where
  "executeTask_begin cfg taskId s =
     (case map_of (tasks s) taskId of
        None \<Rightarrow> Inl (''Task '' @ taskId @ '' not found'')
      | Some r \<Rightarrow>
          (let s1 = modify r (\<lambda>t. t\<lparr>status := Running\<rparr>) s;
               i = length (calls s1)
           in if useDaemon cfg then
                Inr (i, s1\<lparr>calls := calls s1 @
                      [\<lparr>c_taskId = taskId, c_task = r, c_executor = None, c_timer = False,
                        c_result = None\<rparr>]\<rparr>)
              else
                (let task = deref s1 r;
                     cmd = (if agent task = Claude then claudePath cfg else geminiPath cfg);
                     executor = new_CLIExecutor cmd (buildArgs (agent task) (prompt task))
                 in Inr (i, s1\<lparr>executors := AList.update taskId i (executors s1),
                               calls := calls s1 @
                      [\<lparr>c_taskId = taskId, c_task = r, c_executor = Some (execute_spawn executor),
                        c_timer = True, c_result = None\<rparr>]\<rparr>))))"

text \<open>The \<open>progress\<close> listener that \<open>executeTask\<close> installs on its executor.\<close>

definition onProgress :: "nat \<Rightarrow> TaskProgress \<Rightarrow> TaskManager \<Rightarrow> TaskManager" where
  "onProgress i p s =
     modify (c_task (calls s ! i))
       (\<lambda>t. let t1 = t\<lparr>task_output := task_output t @ data p\<rparr>
            in if ptype p = OutputP then t1\<lparr>progress := min (progress t1 + 5) 95\<rparr> else t1) s"

text \<open>
  What follows the \<open>await\<close>: the success path, the \<open>catch\<close> block, and the
  \<open>finally\<close> block after either. A promise settles once, so a call that has already
  settled ignores a later \<open>resolve\<close> or \<open>reject\<close>.
\<close>

definition finally_block :: "nat \<Rightarrow> TaskManager \<Rightarrow> TaskManager" where
  "finally_block i s = s\<lparr>executors := AList.delete (c_taskId (calls s ! i)) (executors s)\<rparr>"

definition resolve :: "nat \<Rightarrow> string \<Rightarrow> nat \<Rightarrow> TaskManager \<Rightarrow> TaskManager" where
  "resolve i result now s =
     (if c_result (calls s ! i) \<noteq> None then s
      else finally_block i
        (modify_call i (\<lambda>c. c\<lparr>c_result := Some (Inr result)\<rparr>)
          (modify (c_task (calls s ! i))
            (\<lambda>t. t\<lparr>task_output := result, status := Completed, progress := 100,
                   completedAt := Some now\<rparr>) s)))"

definition reject :: "nat \<Rightarrow> message \<Rightarrow> nat \<Rightarrow> TaskManager \<Rightarrow> TaskManager" where
  "reject i msg now s =
     (if c_result (calls s ! i) \<noteq> None then s
      else finally_block i
        (modify_call i (\<lambda>c. c\<lparr>c_result := Some (Inl msg)\<rparr>)
          (modify (c_task (calls s ! i))
            (\<lambda>t. t\<lparr>status := Failed, error := Some msg, completedAt := Some now\<rparr>) s)))"

text \<open>The handlers that \<open>execute\<close> installs on the child process and on its timer.\<close>

definition with_executor :: "nat \<Rightarrow> (CLIExecutor \<Rightarrow> CLIExecutor) \<Rightarrow> TaskManager \<Rightarrow> TaskManager" where
  "with_executor i f s = modify_call i (\<lambda>c. c\<lparr>c_executor := map_option f (c_executor c)\<rparr>) s"

definition the_output :: "TaskManager \<Rightarrow> nat \<Rightarrow> string" where
  "the_output s i = (case c_executor (calls s ! i) of None \<Rightarrow> [] | Some e \<Rightarrow> exec_output e)"

definition onStdout :: "nat \<Rightarrow> string \<Rightarrow> nat \<Rightarrow> TaskManager \<Rightarrow> TaskManager" where
  "onStdout i text now s =
     onProgress i \<lparr>ptype = OutputP, data = text, timestamp = now\<rparr>
       (with_executor i (\<lambda>e. e\<lparr>exec_output := exec_output e @ text\<rparr>) s)"

definition onStderr :: "nat \<Rightarrow> string \<Rightarrow> nat \<Rightarrow> TaskManager \<Rightarrow> TaskManager" where
  "onStderr i text now s =
     onProgress i \<lparr>ptype = ErrorP, data = text, timestamp = now\<rparr>
       (with_executor i (\<lambda>e. e\<lparr>exec_output := exec_output e @ text\<rparr>) s)"

definition onClose :: "nat \<Rightarrow> int option \<Rightarrow> nat \<Rightarrow> TaskManager \<Rightarrow> TaskManager" where
  "onClose i code now s =
     (let s1 = modify_call i (\<lambda>c. c\<lparr>c_timer := False\<rparr>) s;
          s2 = with_executor i (\<lambda>e. e\<lparr>exec_isRunning := False, process := False\<rparr>) s1;
          s3 = onProgress i \<lparr>ptype = CompleteP, data = ''Exit code: '' @ show_code code,
                             timestamp = now\<rparr> s2
      in if code = Some 0 then resolve i (the_output s3 i) now s3
         else reject i (''Command failed with exit code '' @ show_code code @ [newline]
                          @ the_output s3 i) now s3)"

definition onError :: "nat \<Rightarrow> message \<Rightarrow> nat \<Rightarrow> TaskManager \<Rightarrow> TaskManager" where
  "onError i err now s =
     (let s1 = modify_call i (\<lambda>c. c\<lparr>c_timer := False\<rparr>) s;
          s2 = with_executor i (\<lambda>e. e\<lparr>exec_isRunning := False, process := False\<rparr>) s1
      in reject i err now s2)"

definition onTimeout :: "nat \<Rightarrow> nat \<Rightarrow> TaskManager \<Rightarrow> TaskManager" where
  "onTimeout i now s =
     (if c_timer (calls s ! i) then
        reject i (''Command timed out after '' @ show_nat (5 * 60 * 1000) @ ''ms'') now
          (with_executor i cancel (modify_call i (\<lambda>c. c\<lparr>c_timer := False\<rparr>) s))
      else s)"

text \<open>In daemon mode the awaited promise is the one \<open>sendPrompt\<close> returned.\<close>

definition onDaemon :: "nat \<Rightarrow> message + string \<Rightarrow> nat \<Rightarrow> TaskManager \<Rightarrow> TaskManager" where
  "onDaemon i r now s = (case r of Inl msg \<Rightarrow> reject i msg now s | Inr text \<Rightarrow> resolve i text now s)"

definition cancelTask :: "string \<Rightarrow> nat \<Rightarrow> TaskManager \<Rightarrow> bool \<times> TaskManager" where
  "cancelTask taskId now s =
     (case (map_of (executors s) taskId, map_of (tasks s) taskId) of
        (Some i, Some r) \<Rightarrow>
          (True,
           (modify r (\<lambda>t. t\<lparr>status := Cancelled, completedAt := Some now\<rparr>)
             (with_executor i cancel s))\<lparr>executors := AList.delete taskId (executors s)\<rparr>)
      | _ \<Rightarrow> (False, s))"

text \<open>The queries hand out the stored references; \<open>getAllTasks\<close> builds a new array of them.\<close>

definition getTask :: "TaskManager \<Rightarrow> string \<Rightarrow> nat option" where
  "getTask s taskId = map_of (tasks s) taskId"

definition getAllTasks :: "TaskManager \<Rightarrow> nat list" where
  "getAllTasks s = map snd (tasks s)"

definition getRunningTasks :: "TaskManager \<Rightarrow> nat list" where
  "getRunningTasks s = filter (\<lambda>r. status (deref s r) = Running) (getAllTasks s)"

definition getCompletedTasks :: "TaskManager \<Rightarrow> nat list" where
  "getCompletedTasks s =
     filter (\<lambda>r. status (deref s r) = Completed \<or> status (deref s r) = Failed
                \<or> status (deref s r) = Cancelled) (getAllTasks s)"

section \<open>Runs of the registry\<close>

text \<open>
  What can happen to a registry, one atomic step at a time: the three operations its
  callers invoke, and the events delivered to the handlers of a call (named by its
  position in \<open>calls\<close>). Each carries the clock reading it sees.
\<close>

datatype event =
    CreateTask AgentType string nat
  | ExecuteTask Config string
  | CancelTask string nat
  | Stdout nat string nat
  | Stderr nat string nat
  | Close nat "int option" nat
  | SpawnError nat message nat
  | Timeout nat nat
  | DaemonSettled nat "message + string" nat

fun step :: "TaskManager \<Rightarrow> event \<Rightarrow> TaskManager" where
  "step s (CreateTask a p now) = snd (createTask a p now s)"
| "step s (ExecuteTask cfg taskId) =
     (case executeTask_begin cfg taskId s of Inl _ \<Rightarrow> s | Inr (_, s1) \<Rightarrow> s1)"
| "step s (CancelTask taskId now) = snd (cancelTask taskId now s)"
| "step s (Stdout i text now) = onStdout i text now s"
| "step s (Stderr i text now) = onStderr i text now s"
| "step s (Close i code now) = onClose i code now s"
| "step s (SpawnError i err now) = onError i err now s"
| "step s (Timeout i now) = onTimeout i now s"
| "step s (DaemonSettled i r now) = onDaemon i r now s"

definition run :: "TaskManager \<Rightarrow> event list \<Rightarrow> TaskManager" where
  "run s evs = foldl step s evs"

text \<open>The statuses a task object shows after each step of a run.\<close>

fun history :: "nat \<Rightarrow> TaskManager \<Rightarrow> event list \<Rightarrow> TaskStatus list" where
  "history r s [] = []"
| "history r s (e # evs) = status (deref (step s e) r) # history r (step s e) evs"

text \<open>The chunks a child process writes: on stdout (\<open>False\<close>) or stderr (\<open>True\<close>).\<close>

definition chunk_event :: "nat \<Rightarrow> bool \<times> string \<times> nat \<Rightarrow> event" where
  "chunk_event i c = (case c of (err, text, now) \<Rightarrow> if err then Stderr i text now else Stdout i text now)"

definition chunk_text :: "(bool \<times> string \<times> nat) list \<Rightarrow> string" where
  "chunk_text cs = concat (map (\<lambda>c. fst (snd c)) cs)"

section \<open>Regular expressions as the daemons use them\<close>

text \<open>
  The patterns of the two daemons use literals, character classes, \<open>?\<close>, \<open>*\<close>,
  \<open>+\<close>, \<open>|\<close> and the anchors of the \<open>m\<close> flag. A position in the subject is the
  code unit before it (none at the start) and the text after it. \<open>ends r x\<close> lists the
  positions where a match of \<open>r\<close> begun at \<open>x\<close> can stop, in the order a
  backtracking matcher tries them, so its head is the match that is found. An iteration
  of \<open>*\<close> that consumes nothing is refused, as in ECMAScript.
\<close>

datatype re =
    Eps
  | Cls "char \<Rightarrow> bool"
  | Seq re re
  | Alt re re
  | Opt re
  | Star re
  | Bol
  | Eol

type_synonym pos = "char option \<times> string"

definition lineTerminator :: "char \<Rightarrow> bool" where
  "lineTerminator c \<longleftrightarrow> c = CHR 0x0A \<or> c = CHR 0x0D"

function ends :: "re \<Rightarrow> pos \<Rightarrow> pos list" where
  "ends Eps x = [x]"
| "ends (Cls p) (prev, []) = []"
| "ends (Cls p) (prev, c # cs) = (if p c then [(Some c, cs)] else [])"
| "ends (Seq a b) x = concat (map (ends b) (ends a x))"
| "ends (Alt a b) x = ends a x @ ends b x"
| "ends (Opt a) x = ends a x @ [x]"
| "ends (Star a) x =
     concat (map (\<lambda>y. if length (snd y) < length (snd x) then ends (Star a) y else [])
                 (ends a x)) @ [x]"
| "ends Bol (prev, s) =
     (case prev of None \<Rightarrow> [(prev, s)]
      | Some c \<Rightarrow> if lineTerminator c then [(prev, s)] else [])"
| "ends Eol (prev, s) =
     (case s of [] \<Rightarrow> [(prev, s)]
      | c # _ \<Rightarrow> if lineTerminator c then [(prev, s)] else [])"
  by pat_completeness auto
termination
  by (relation "inv_image (less_than <*lex*> less_than) (\<lambda>(r, x). (size r, length (snd x)))") auto

text \<open>The leftmost match at or after a position: where it starts and where it stops.\<close>

fun search :: "re \<Rightarrow> pos \<Rightarrow> (pos \<times> pos) option" where
  "search r (prev, []) =
     (case ends r (prev, []) of [] \<Rightarrow> None | e # _ \<Rightarrow> Some ((prev, []), e))"
| "search r (prev, c # cs) =
     (case ends r (prev, c # cs) of
        [] \<Rightarrow> search r (Some c, cs)
      | e # _ \<Rightarrow> Some ((prev, c # cs), e))"

text \<open>\<open>RegExp.prototype.test\<close> for a pattern without the \<open>g\<close> flag.\<close>

definition test :: "re \<Rightarrow> string \<Rightarrow> bool" where
  "test r s \<longleftrightarrow> search r (None, s) \<noteq> None"

text \<open>
  \<open>String.prototype.match\<close> with a \<open>g\<close> pattern: every match from left to right, the
  next search starting where the last match stopped (one further after an empty match).
  The empty list stands for \<open>null\<close>.
\<close>

function match_g :: "re \<Rightarrow> pos \<Rightarrow> string list" where
  "match_g r (prev, s) =
     (case ends r (prev, s) of
        [] \<Rightarrow> (case s of [] \<Rightarrow> [] | c # cs \<Rightarrow> match_g r (Some c, cs))
      | e # _ \<Rightarrow>
          if length (snd e) < length s
          then take (length s - length (snd e)) s # match_g r e
          else (case s of [] \<Rightarrow> [[]] | c # cs \<Rightarrow> [] # match_g r (Some c, cs)))"
  by pat_completeness auto
termination
  by (relation "measure (\<lambda>(r, x). length (snd x))") auto

text \<open>\<open>String.prototype.replace\<close> with a \<open>g\<close> pattern and the empty replacement.\<close>

function remove_g :: "re \<Rightarrow> pos \<Rightarrow> string" where
  "remove_g r (prev, s) =
     (case s of
        [] \<Rightarrow> []
      | c # cs \<Rightarrow>
          (case ends r (prev, s) of
             [] \<Rightarrow> c # remove_g r (Some c, cs)
           | e # _ \<Rightarrow>
               if length (snd e) < length s then remove_g r e
               else c # remove_g r (Some c, cs)))"
  by pat_completeness auto
termination
  by (relation "measure (\<lambda>(r, x). length (snd x))") auto

declare match_g.simps [simp del] remove_g.simps [simp del]

definition Plus :: "re \<Rightarrow> re" where
  "Plus a = Seq a (Star a)"

definition seqs :: "re list \<Rightarrow> re" where
  "seqs rs = foldr Seq rs Eps"

definition chr :: "char \<Rightarrow> re" where
  "chr x = Cls (\<lambda>c. c = x)"

text \<open>
  Case folding of the \<open>i\<close> flag compares the upper-case forms of two code units;
  below 256 that moves \<open>a\<close>-\<open>z\<close> and the accented lower-case letters down by 32.
  \<open>canonicalize\<close> gives the folded code unit as a number.
\<close>

definition canonicalize :: "char \<Rightarrow> nat" where
  "canonicalize c =
     (let n = (of_char c :: nat)
      in if (97 \<le> n \<and> n \<le> 122) \<or> (224 \<le> n \<and> n \<le> 254 \<and> n \<noteq> 247)
         then n - 32 else n)"

definition chr_i :: "char \<Rightarrow> re" where
  "chr_i x = Cls (\<lambda>c. canonicalize c = canonicalize x)"

definition lit_i :: "string \<Rightarrow> re" where
  "lit_i s = seqs (map chr_i s)"

text \<open>The classes \<open>\s\<close>, \<open>\d\<close> and \<open>.\<close>; \<open>trim\<close> strips the same set as \<open>\s\<close>.\<close>

definition white :: "char \<Rightarrow> bool" where
  "white c \<longleftrightarrow> (of_char c :: nat) \<in> {9, 10, 11, 12, 13, 32, 160}"

definition is_digit :: "char \<Rightarrow> bool" where
  "is_digit c \<longleftrightarrow> 48 \<le> (of_char c :: nat) \<and> (of_char c :: nat) \<le> 57"

definition is_alpha :: "char \<Rightarrow> bool" where
  "is_alpha c \<longleftrightarrow>
     (97 \<le> (of_char c :: nat) \<and> (of_char c :: nat) \<le> 122) \<or>
     (65 \<le> (of_char c :: nat) \<and> (of_char c :: nat) \<le> 90)"

definition dot :: "char \<Rightarrow> bool" where
  "dot c \<longleftrightarrow> \<not> lineTerminator c"

definition trim :: "string \<Rightarrow> string" where
  "trim s = rev (dropWhile white (rev (dropWhile white s)))"

definition toLowerCase :: "string \<Rightarrow> string" where
  "toLowerCase s =
     map (\<lambda>c. let n = (of_char c :: nat)
              in if (65 \<le> n \<and> n \<le> 90) \<or> (192 \<le> n \<and> n \<le> 222 \<and> n \<noteq> 215)
                 then char_of (n + 32) else c) s"

text \<open>\<open>String.prototype.includes\<close>.\<close>

fun includes_str :: "string \<Rightarrow> string \<Rightarrow> bool" where
  "includes_str [] p \<longleftrightarrow> p = []"
| "includes_str (c # cs) p \<longleftrightarrow> prefix p (c # cs) \<or> includes_str cs p"

text \<open>
  \<open>parseInt(s, 10)\<close> followed by \<open>|| 0\<close>: leading white space, an optional sign, then
  the longest run of digits; no digits at all give \<open>NaN\<close> and so 0.
\<close>

definition digits_value :: "string \<Rightarrow> int" where
  "digits_value ds = foldl (\<lambda>a c. 10 * a + (int (of_char c) - 48)) 0 ds"

definition parseInt_or_0 :: "string \<Rightarrow> int" where
  "parseInt_or_0 s =
     (let s1 = dropWhile white s;
          neg = (case s1 of [] \<Rightarrow> False | c # _ \<Rightarrow> c = CHR ''-'');
          s2 = (case s1 of [] \<Rightarrow> [] | c # cs \<Rightarrow> if c = CHR ''-'' \<or> c = CHR ''+'' then cs else s1);
          ds = takeWhile is_digit s2
      in if ds = [] then 0 else if neg then - digits_value ds else digits_value ds)"

section \<open>GeminiDaemon.ts and ClaudeDaemon.ts\<close>

text \<open>
  The two daemon classes differ in their constants, their key map, their choice
  detector and one branch of the polling loop; every function below takes the agent as
  its first argument and follows the class of that agent.
\<close>

datatype InteractionMode = Interactive | Auto

record PendingChoice =
  options :: "string list"
  choice_prompt :: string

text \<open>
  A daemon object: its two fields, and the commands it has handed to
  \<open>runWslCommand\<close> so far (the effect it has on the outside world).
\<close>

record Daemon =
  isRunning :: bool
  mode :: InteractionMode
  issued :: "string list"

definition new_Daemon :: Daemon where
  "new_Daemon = \<lparr>isRunning = False, mode = Interactive, issued = []\<rparr>"

definition SESSION_NAME :: "AgentType \<Rightarrow> string" where
  "SESSION_NAME k = (if k = Gemini then ''gemini-daemon'' else ''claude-daemon'')"

definition OUTPUT_FILE :: "AgentType \<Rightarrow> string" where
  "OUTPUT_FILE k =
     (if k = Gemini then ''/tmp/gemini-daemon-output.txt'' else ''/tmp/claude-daemon-output.txt'')"

definition tool :: "AgentType \<Rightarrow> string" where
  "tool k = (if k = Gemini then ''gemini'' else ''claude'')"

definition Tool :: "AgentType \<Rightarrow> string" where
  "Tool k = (if k = Gemini then ''Gemini'' else ''Claude'')"

definition promptTimeout :: "AgentType \<Rightarrow> nat" where
  "promptTimeout k = (if k = Gemini then 60000 else 120000)"

text \<open>
  What \<open>execSync\<close> does with a command: it returns the standard output, or it throws an
  error that carries the standard output collected so far and a message.
\<close>

datatype exec_result = Exited string | Threw string message

definition runWslCommand :: "string \<Rightarrow> exec_result \<Rightarrow> Daemon \<Rightarrow> (message + string) \<times> Daemon" where
  "runWslCommand cmd res d =
     (case res of
        Exited out \<Rightarrow> Inr out
      | Threw out msg \<Rightarrow> if out \<noteq> [] then Inr out else Inl msg,
      d\<lparr>issued := issued d @ [cmd]\<rparr>)"

definition list_cmd :: "AgentType \<Rightarrow> string" where
  "list_cmd k = ''tmux list-sessions 2>/dev/null | grep '' @ SESSION_NAME k @ '' || true''"

definition new_session_cmd :: "AgentType \<Rightarrow> string" where
  "new_session_cmd k =
     ''tmux new-session -d -s '' @ SESSION_NAME k @ '' '' @ [dquote] @ tool k
       @ '' 2>&1 | tee '' @ OUTPUT_FILE k @ [dquote]"

definition kill_cmd :: "AgentType \<Rightarrow> string" where
  "kill_cmd k = ''tmux kill-session -t '' @ SESSION_NAME k @ '' 2>/dev/null || true''"

definition clear_cmd :: "AgentType \<Rightarrow> string" where
  "clear_cmd k = ''echo '' @ [dquote, dquote] @ '' > '' @ OUTPUT_FILE k"

definition stat_cmd :: "AgentType \<Rightarrow> string" where
  "stat_cmd k = ''stat -c%s '' @ OUTPUT_FILE k @ '' 2>/dev/null || echo 0''"

definition tail_cmd :: "AgentType \<Rightarrow> int \<Rightarrow> string" where
  "tail_cmd k beforeSize =
     ''tail -c +'' @ show_int (beforeSize + 1) @ '' '' @ OUTPUT_FILE k @ '' 2>/dev/null || true''"

definition send_keys_cmd :: "AgentType \<Rightarrow> string \<Rightarrow> string" where
  "send_keys_cmd k tmuxKey =
     ''tmux send-keys -t '' @ SESSION_NAME k @ '' '' @ [dquote] @ tmuxKey @ [dquote]"

definition send_prompt_cmd :: "AgentType \<Rightarrow> string \<Rightarrow> string" where
  "send_prompt_cmd k escapedPrompt =
     ''tmux send-keys -t '' @ SESSION_NAME k @ '' '' @ [dquote] @ escapedPrompt @ [dquote]
       @ '' Enter''"

text \<open>
  \<open>start\<close>: the whole body is inside \<open>try\<close>, and the \<open>catch\<close> block returns false, so
  the result is a boolean whatever the two commands do.
\<close>

definition start :: "AgentType \<Rightarrow> exec_result \<Rightarrow> exec_result \<Rightarrow> Daemon \<Rightarrow> bool \<times> Daemon" where
  "start k list_out new_out d =
     (case runWslCommand (list_cmd k) list_out d of
        (Inl e, d1) \<Rightarrow> (False, d1)
      | (Inr sessions, d1) \<Rightarrow>
          if includes_str sessions (SESSION_NAME k) then (True, d1\<lparr>isRunning := True\<rparr>)
          else (case runWslCommand (new_session_cmd k) new_out d1 of
                  (Inl e, d2) \<Rightarrow> (False, d2)
                | (Inr _, d2) \<Rightarrow> (True, d2\<lparr>isRunning := True\<rparr>)))"

definition stop :: "AgentType \<Rightarrow> exec_result \<Rightarrow> Daemon \<Rightarrow> Daemon" where
  "stop k kill_out d =
     (case runWslCommand (kill_cmd k) kill_out d of
        (Inl e, d1) \<Rightarrow> d1
      | (Inr _, d1) \<Rightarrow> d1\<lparr>isRunning := False\<rparr>)"

definition setMode :: "InteractionMode \<Rightarrow> Daemon \<Rightarrow> Daemon" where
  "setMode m d = d\<lparr>mode := m\<rparr>"

text \<open>
  \<open>keyMap[key.toLowerCase()] || key\<close>. The map is a plain object, so the two lower-case
  names it inherits from \<open>Object.prototype\<close> yield that property, as the template
  literal renders it.
\<close>

definition keyMap :: "AgentType \<Rightarrow> (string \<times> string) list" where
  "keyMap k =
     [(''enter'', ''Enter''), (''escape'', ''Escape''), (''tab'', ''Tab''), (''up'', ''Up''),
      (''down'', ''Down''), (''ctrl+c'', ''C-c''), (''ctrl+d'', ''C-d'')]
     @ (if k = Claude then [(''y'', ''y''), (''n'', ''n'')] else [])"

definition tmuxKey :: "AgentType \<Rightarrow> string \<Rightarrow> string" where
  "tmuxKey k key =
     (case map_of (keyMap k) (toLowerCase key) of
        Some v \<Rightarrow> v
      | None \<Rightarrow>
          if toLowerCase key = ''constructor'' then ''function Object() { [native code] }''
          else if toLowerCase key = ''__proto__'' then ''[object Object]''
          else key)"

definition sendKey :: "AgentType \<Rightarrow> string \<Rightarrow> exec_result \<Rightarrow> Daemon \<Rightarrow> (message + unit) \<times> Daemon" where
  "sendKey k key res d =
     (if \<not> isRunning d then (Inl (Tool k @ '' daemon is not running''), d)
      else (case runWslCommand (send_keys_cmd k (tmuxKey k key)) res d of
              (Inl e, d1) \<Rightarrow> (Inl e, d1)
            | (Inr _, d1) \<Rightarrow> (Inr (), d1)))"

text \<open>Two keys in a row; the second is not sent when the first throws.\<close>

definition sendKeys2 ::
  "AgentType \<Rightarrow> string \<Rightarrow> string \<Rightarrow> exec_result \<Rightarrow> exec_result \<Rightarrow> Daemon \<Rightarrow> (message + unit) \<times> Daemon" where
  "sendKeys2 k key1 key2 res1 res2 d =
     (case sendKey k key1 res1 d of
        (Inl e, d1) \<Rightarrow> (Inl e, d1)
      | (Inr _, d1) \<Rightarrow> sendKey k key2 res2 d1)"

definition autoRespond ::
  "AgentType \<Rightarrow> PendingChoice \<Rightarrow> exec_result \<Rightarrow> exec_result \<Rightarrow> Daemon \<Rightarrow> (message + unit) \<times> Daemon" where
  "autoRespond k choice res1 res2 d =
     (if ''y'' \<in> set (options choice) then sendKeys2 k ''y'' ''enter'' res1 res2 d
      else if ''enter'' \<in> set (options choice) then sendKey k ''enter'' res1 d
      else if length (options choice) > 0 then sendKeys2 k (options choice ! 0) ''enter'' res1 res2 d
      else (Inr (), d))"

text \<open>
  \<open>askUserForChoice\<close>: \<open>pick\<close> is what the operator does with the dialog shown, the
  position of the item chosen or nothing when the dialog is dismissed.
\<close>

definition askUserForChoice :: "PendingChoice \<Rightarrow> nat option \<Rightarrow> string option" where
  "askUserForChoice choice pick =
     (if ''enter'' \<in> set (options choice) then
        (case pick of None \<Rightarrow> None | Some _ \<Rightarrow> Some ''enter'')
      else if ''y'' \<in> set (options choice) \<and> ''n'' \<in> set (options choice) then
        (case pick of
           None \<Rightarrow> None
         | Some j \<Rightarrow> if j = 0 then Some ''y'' else if j = 1 then Some ''n'' else None)
      else
        (case pick of
           None \<Rightarrow> None
         | Some j \<Rightarrow> if j < length (options choice) then Some (options choice ! j) else None))"

definition replace_char :: "char \<Rightarrow> string \<Rightarrow> string \<Rightarrow> string" where
  "replace_char x rep s = concat (map (\<lambda>c. if c = x then rep else [c]) s)"

definition escapeForTmux :: "string \<Rightarrow> string" where
  "escapeForTmux s =
     replace_char (CHR 0x60) [CHR 0x5C, CHR 0x60]
       (replace_char (CHR ''$'') [CHR 0x5C, CHR ''$'']
         (replace_char dquote [CHR 0x5C, dquote]
           (replace_char (CHR 0x5C) [CHR 0x5C, CHR 0x5C] s)))"

text \<open>\<open>getOutputSize\<close> catches whatever the command throws and then returns 0.\<close>

definition sizeOf :: "exec_result \<Rightarrow> int" where
  "sizeOf res =
     (case res of
        Exited out \<Rightarrow> parseInt_or_0 (trim out)
      | Threw out msg \<Rightarrow> if out \<noteq> [] then parseInt_or_0 (trim out) else 0)"

definition getOutputSize :: "AgentType \<Rightarrow> exec_result \<Rightarrow> Daemon \<Rightarrow> int \<times> Daemon" where
  "getOutputSize k res d = (sizeOf res, snd (runWslCommand (stat_cmd k) res d))"

definition ansi_re :: re where
  "ansi_re = seqs [chr (CHR 0x1B), chr (CHR ''[''), Star (Cls (\<lambda>c. is_digit c \<or> c = CHR '';'')),
                   Cls is_alpha]"

definition cleanOutput :: "string \<Rightarrow> string" where
  "cleanOutput out = trim (remove_g (chr (CHR 0x0D)) (None, remove_g ansi_re (None, out)))"

subsection \<open>detectChoice\<close>

definition yes_no :: "string \<Rightarrow> bool" where
  "yes_no out \<longleftrightarrow>
     test (lit_i ''(y/n)'') out \<or> test (lit_i ''[y/N]'') out \<or> test (lit_i ''[Y/n]'') out"

definition numbered_re :: re where
  "numbered_re =
     seqs [Bol, Star (Cls white), Opt (chr (CHR ''['')), Plus (Cls is_digit), Opt (chr (CHR '']'')),
           Star (Cls white), Cls (\<lambda>c. c = CHR ''.'' \<or> c = CHR '')'' \<or> c = CHR '':''),
           Star (Cls white), Plus (Cls dot), Eol]"

definition allow_re :: re where
  "allow_re = Alt (lit_i ''allow'') (Alt (lit_i ''deny'') (lit_i ''permit''))"

definition enter_re :: "AgentType \<Rightarrow> re" where
  "enter_re k =
     (if k = Gemini then Alt (lit_i ''press enter'') (lit_i ''hit enter'')
      else Alt (lit_i ''press enter'') (lit_i ''continue?''))"

definition numbered_choice :: "string \<Rightarrow> PendingChoice option" where
  "numbered_choice out =
     (let numberedMatches = match_g numbered_re (None, out)
      in if length numberedMatches \<ge> 2 then
           (let opts = map (\<lambda>i. show_nat (i + 1)) [0..<length numberedMatches]
            in Some \<lparr>options = opts,
                     choice_prompt = ''Select an option (1-'' @ show_nat (length opts) @ '')''\<rparr>)
         else None)"

definition detectChoice :: "AgentType \<Rightarrow> string \<Rightarrow> PendingChoice option" where
  "detectChoice k out =
     (if k = Gemini then
        (if yes_no out then
           Some \<lparr>options = [''y'', ''n''], choice_prompt = ''Yes or No?''\<rparr>
         else (case numbered_choice out of
                 Some c \<Rightarrow> Some c
               | None \<Rightarrow>
                   if test (enter_re k) out then
                     Some \<lparr>options = [''enter''], choice_prompt = ''Press Enter to continue''\<rparr>
                   else None))
      else
        (if yes_no out then
           Some \<lparr>options = [''y'', ''n''], choice_prompt = ''Permission required - Yes or No?''\<rparr>
         else if test allow_re out \<and> test (chr (CHR ''?'')) out then
           Some \<lparr>options = [''y'', ''n''], choice_prompt = ''Allow this action?''\<rparr>
         else (case numbered_choice out of
                 Some c \<Rightarrow> Some c
               | None \<Rightarrow>
                   if test (enter_re k) out then
                     Some \<lparr>options = [''enter''], choice_prompt = ''Press Enter to continue''\<rparr>
                   else None)))"

subsection \<open>The completion-detection loop\<close>

text \<open>
  What one pass of the loop meets outside the daemon: the outcome of the \<open>stat\<close>
  command, of the \<open>tail\<close> command, what the operator does if asked, the outcomes of the
  (at most two) \<open>send-keys\<close> commands, and the time the pass takes beyond its 500 ms
  sleep.
\<close>

record tick =
  stat_out :: exec_result
  tail_out :: exec_result
  pick :: "nat option"
  key1_out :: exec_result
  key2_out :: exec_result
  extra_ms :: nat

text \<open>
  The body of the \<open>while\<close> loop. Its local state is \<open>stableCount\<close>, \<open>lastSize\<close> and
  \<open>lastOutput\<close>; it returns from the function, throws, or goes round again with a new
  local state.
\<close>

datatype tick_result = Return string | Throw message | Continue nat int string

definition stability :: "int \<Rightarrow> int \<Rightarrow> string \<Rightarrow> nat \<times> int \<times> string \<Rightarrow> tick_result" where
  "stability beforeSize currentSize cleaned st =
     (case st of (stableCount, lastSize, lastOutput) \<Rightarrow>
        if currentSize > beforeSize \<and> currentSize = lastSize \<and> cleaned = lastOutput then
          (if stableCount + 1 \<ge> 4 then Return cleaned
           else Continue (stableCount + 1) lastSize lastOutput)
        else Continue 0 currentSize cleaned)"

definition poll ::
  "AgentType \<Rightarrow> int \<Rightarrow> tick \<Rightarrow> nat \<times> int \<times> string \<Rightarrow> Daemon \<Rightarrow> tick_result \<times> Daemon" where
  "poll k beforeSize t st d =
     (case st of (stableCount, lastSize, lastOutput) \<Rightarrow>
      (let (currentSize, d1) = getOutputSize k (stat_out t) d
       in case runWslCommand (tail_cmd k beforeSize) (tail_out t) d1 of
            (Inl e, d2) \<Rightarrow> (Throw e, d2)
          | (Inr currentOutput, d2) \<Rightarrow>
              (let cleaned = cleanOutput currentOutput
               in case detectChoice k cleaned of
                    None \<Rightarrow> (stability beforeSize currentSize cleaned st, d2)
                  | Some choice \<Rightarrow>
                      if mode d2 = Auto then
                        (case autoRespond k choice (key1_out t) (key2_out t) d2 of
                           (Inl e, d3) \<Rightarrow> (Throw e, d3)
                         | (Inr _, d3) \<Rightarrow> (Continue 0 lastSize lastOutput, d3))
                      else
                        (case askUserForChoice choice (pick t) of
                           None \<Rightarrow> (stability beforeSize currentSize cleaned st, d2)
                         | Some userChoice \<Rightarrow>
                             if userChoice = [] then
                               (stability beforeSize currentSize cleaned st, d2)
                             else
                               (case (if k = Claude \<and> userChoice = ''enter''
                                      then sendKey k userChoice (key1_out t) d2
                                      else sendKeys2 k userChoice ''enter'' (key1_out t)
                                             (key2_out t) d2) of
                                  (Inl e, d3) \<Rightarrow> (Throw e, d3)
                                | (Inr _, d3) \<Rightarrow> (Continue 0 lastSize lastOutput, d3))))))"

text \<open>
  The loop itself. \<open>elapsed\<close> is \<open>Date.now() - startTime\<close> when the condition is
  checked; a pass takes its 500 ms sleep and whatever its commands and dialogs take, so
  the loop ends. It is left by a \<open>return\<close> inside the body (\<open>Stable\<close>), by an
  exception (\<open>Raised\<close>), or by the condition failing (\<open>Expired\<close>).
\<close>

datatype loop_exit = Stable string | Raised message | Expired

function waitLoop ::
  "AgentType \<Rightarrow> (nat \<Rightarrow> tick) \<Rightarrow> int \<Rightarrow> nat \<Rightarrow> nat \<Rightarrow> nat \<Rightarrow> nat \<times> int \<times> string \<Rightarrow> Daemon
     \<Rightarrow> loop_exit \<times> Daemon" where
  "waitLoop k env beforeSize timeoutMs i elapsed st d =
     (if elapsed < timeoutMs then
        (case poll k beforeSize (env i) st d of
           (Return out, d1) \<Rightarrow> (Stable out, d1)
         | (Throw e, d1) \<Rightarrow> (Raised e, d1)
         | (Continue sc ls lo, d1) \<Rightarrow>
             waitLoop k env beforeSize timeoutMs (i + 1) (elapsed + 500 + extra_ms (env i))
               (sc, ls, lo) d1)
      else (Expired, d))"
  by pat_completeness auto
termination
  by (relation "measure (\<lambda>(k, env, beforeSize, timeoutMs, i, elapsed, st, d). timeoutMs - elapsed)")
     auto

declare waitLoop.simps [simp del]

definition waitForOutputWithChoiceDetection ::
  "AgentType \<Rightarrow> (nat \<Rightarrow> tick) \<Rightarrow> exec_result \<Rightarrow> int \<Rightarrow> nat \<Rightarrow> Daemon \<Rightarrow> (message + string) \<times> Daemon" where
  "waitForOutputWithChoiceDetection k env final_out beforeSize timeoutMs d =
     (case waitLoop k env beforeSize timeoutMs 0 0 (0, beforeSize, []) d of
        (Stable out, d1) \<Rightarrow> (Inr out, d1)
      | (Raised e, d1) \<Rightarrow> (Inl e, d1)
      | (Expired, d1) \<Rightarrow>
          (case runWslCommand (tail_cmd k beforeSize) final_out d1 of
             (Inl e, d2) \<Rightarrow> (Inl e, d2)
           | (Inr finalOutput, d2) \<Rightarrow> (Inr (cleanOutput finalOutput), d2)))"

text \<open>Everything outside the daemon that one \<open>sendPrompt\<close> call meets.\<close>

record world =
  list_out :: exec_result
  new_out :: exec_result
  clear_out :: exec_result
  before_out :: exec_result
  send_out :: exec_result
  ticks :: "nat \<Rightarrow> tick"
  final_out :: exec_result

definition daemon_error :: "AgentType \<Rightarrow> message \<Rightarrow> message" where
  "daemon_error k e = Tool k @ '' daemon error: '' @ e"

definition sendPrompt :: "AgentType \<Rightarrow> string \<Rightarrow> world \<Rightarrow> Daemon \<Rightarrow> (message + string) \<times> Daemon" where
  "sendPrompt k p w d =
     (let d0 = (if \<not> isRunning d then snd (start k (list_out w) (new_out w) d) else d)
      in case runWslCommand (clear_cmd k) (clear_out w) d0 of
           (Inl e, d1) \<Rightarrow> (Inl (daemon_error k e), d1)
         | (Inr _, d1) \<Rightarrow>
             (let (beforeSize, d2) = getOutputSize k (before_out w) d1
              in case runWslCommand (send_prompt_cmd k (escapeForTmux p)) (send_out w) d2 of
                   (Inl e, d3) \<Rightarrow> (Inl (daemon_error k e), d3)
                 | (Inr _, d3) \<Rightarrow>
                     (case waitForOutputWithChoiceDetection k (ticks w) (final_out w) beforeSize
                             (promptTimeout k) d3 of
                        (Inl e, d4) \<Rightarrow> (Inl (daemon_error k e), d4)
                      | (Inr out, d4) \<Rightarrow> (Inr out, d4))))"

section \<open>Auxiliary notions for the proofs\<close>

text \<open>
  A call in flight: call \<open>i\<close> belongs to task object \<open>r\<close>, has an executor whose
  buffer holds \<open>b\<close>, has not settled, and the task's output reads \<open>out\<close>.
\<close>

definition in_flight :: "TaskManager \<Rightarrow> nat \<Rightarrow> nat \<Rightarrow> string \<Rightarrow> string \<Rightarrow> bool" where
  "in_flight s i r b out \<longleftrightarrow>
     i < length (calls s) \<and> r < length (heap s) \<and> c_task (calls s ! i) = r \<and>
     c_result (calls s ! i) = None \<and> the_output s i = b \<and>
     c_executor (calls s ! i) \<noteq> None \<and> task_output (deref s r) = out"

text \<open>
  A caller assigning to the fields of a \<open>Task\<close> it was handed: a write to the store at
  that reference.
\<close>

definition write_through :: "nat \<Rightarrow> (Task \<Rightarrow> Task) \<Rightarrow> TaskManager \<Rightarrow> TaskManager" where
  "write_through r f s = modify r f s"

definition mark_completed :: "Task \<Rightarrow> Task" where
  "mark_completed t = t\<lparr>status := Completed\<rparr>"

definition overwrite_prompt :: "Task \<Rightarrow> Task" where
  "overwrite_prompt t = t\<lparr>prompt := ''changed''\<rparr>"

text \<open>The scenario of the specification: one task for \<open>claude\<close> with prompt \<open>hello\<close>.\<close>

definition cli_cfg :: Config where
  "cli_cfg = \<lparr>useDaemon = False, claudePath = ''claude'', geminiPath = ''gemini''\<rparr>"

definition daemon_cfg :: Config where
  "daemon_cfg = \<lparr>useDaemon = True, claudePath = ''claude'', geminiPath = ''gemini''\<rparr>"

definition hello :: TaskManager where
  "hello = snd (createTask Claude ''hello'' 1000 new_TaskManager)"

text \<open>
  Whether the failure of a command reaches the caller of \<open>runWslCommand\<close>, and the text
  the caller gets when it does not.
\<close>

definition throws :: "exec_result \<Rightarrow> bool" where
  "throws res \<longleftrightarrow> (case res of Exited out \<Rightarrow> False | Threw out msg \<Rightarrow> out = [])"

definition stdout_of :: "exec_result \<Rightarrow> string" where
  "stdout_of res = (case res of Exited out \<Rightarrow> out | Threw out msg \<Rightarrow> out)"

text \<open>
  A pass of the loop that reads size \<open>sz\<close> and, after cleaning, the text \<open>c\<close>, in which
  no choice is detected.
\<close>

definition quiet_tick :: "AgentType \<Rightarrow> tick \<Rightarrow> int \<Rightarrow> string \<Rightarrow> bool" where
  "quiet_tick k t sz c \<longleftrightarrow>
     sizeOf (stat_out t) = sz \<and> \<not> throws (tail_out t) \<and>
     cleanOutput (stdout_of (tail_out t)) = c \<and> detectChoice k c = None"

definition polled :: "AgentType \<Rightarrow> int \<Rightarrow> nat \<Rightarrow> Daemon \<Rightarrow> Daemon" where
  "polled k beforeSize m d =
     d\<lparr>issued := issued d @ concat (replicate m [stat_cmd k, tail_cmd k beforeSize])\<rparr>"

text \<open>The daemon as the loop of a \<open>sendPrompt\<close> call finds it.\<close>

definition at_loop_entry :: "AgentType \<Rightarrow> string \<Rightarrow> world \<Rightarrow> Daemon \<Rightarrow> Daemon" where
  "at_loop_entry k p w d =
     (let d0 = (if \<not> isRunning d then snd (start k (list_out w) (new_out w) d) else d);
          d1 = snd (runWslCommand (clear_cmd k) (clear_out w) d0);
          d2 = snd (getOutputSize k (before_out w) d1)
      in snd (runWslCommand (send_prompt_cmd k (escapeForTmux p)) (send_out w) d2))"

text \<open>
  Two scenarios for a Gemini daemon that is already running. In the first the tool
  writes nothing after the prompt: the output file keeps the one byte it was cleared to.
  In the second the tool has answered \<open>done\<close> before the first pass and stays silent.
\<close>

definition running_daemon :: Daemon where
  "running_daemon = \<lparr>isRunning = True, mode = Interactive, issued = []\<rparr>"

definition silent_tick :: tick where
  "silent_tick = \<lparr>stat_out = Exited (''1'' @ [newline]), tail_out = Exited [], pick = None,
                   key1_out = Exited [], key2_out = Exited [], extra_ms = 0\<rparr>"

definition silent_world :: world where
  "silent_world = \<lparr>list_out = Exited [], new_out = Exited [], clear_out = Exited [],
                    before_out = Exited (''1'' @ [newline]), send_out = Exited [],
                    ticks = (\<lambda>i. silent_tick), final_out = Exited []\<rparr>"

text \<open>The silent scenario again, but the read after the loop throws.\<close>

definition broken_world :: world where
  "broken_world = silent_world\<lparr>final_out := Threw [] ''tail failed''\<rparr>"

definition done_tick :: tick where
  "done_tick = \<lparr>stat_out = Exited (''6'' @ [newline]), tail_out = Exited (''done'' @ [newline]),
                 pick = None, key1_out = Exited [], key2_out = Exited [], extra_ms = 20\<rparr>"

definition done_world :: world where
  "done_world = \<lparr>list_out = Exited [], new_out = Exited [], clear_out = Exited [],
                  before_out = Exited (''1'' @ [newline]), send_out = Exited [],
                  ticks = (\<lambda>i. done_tick), final_out = Exited (''done'' @ [newline])\<rparr>"

text \<open>A running Gemini daemon in auto mode, and a pass in which the tool asks a yes/no question.\<close>

definition auto_daemon :: Daemon where
  "auto_daemon = \<lparr>isRunning = True, mode = Auto, issued = []\<rparr>"

definition asking_tick :: tick where
  "asking_tick = \<lparr>stat_out = Exited (''16'' @ [newline]), tail_out = Exited ''Proceed? (y/n)'',
                   pick = None, key1_out = Exited [], key2_out = Exited [], extra_ms = 0\<rparr>"

section \<open>Process-mode runs of executeTask\<close>

lemma show_nat_digit: "n < 10 \<Longrightarrow> show_nat n = [digit n]"
  by (simp add: show_nat.simps)

lemma in_flight_chunk:
  assumes "in_flight s i r b out"
  shows "in_flight (step s (chunk_event i (err, text, now))) i r (b @ text) (out @ text)"
  using assms
  by (auto simp: in_flight_def chunk_event_def onStdout_def onStderr_def onProgress_def
      with_executor_def modify_def modify_call_def the_output_def deref_def Let_def
      split: option.splits)

lemma in_flight_chunks:
  "in_flight s i r b out \<Longrightarrow>
   in_flight (run s (map (chunk_event i) cs)) i r (b @ chunk_text cs) (out @ chunk_text cs)"
proof (induction cs arbitrary: s b out)
  case Nil
  then show ?case by (simp add: run_def chunk_text_def)
next
  case (Cons c cs)
  obtain err chunk now where c: "c = (err, chunk, now)" by (cases c) auto
  from Cons.prems have "in_flight (step s (chunk_event i c)) i r (b @ chunk) (out @ chunk)"
    unfolding c by (rule in_flight_chunk)
  from Cons.IH[OF this] show ?case
    by (simp add: run_def chunk_text_def c)
qed

lemma begin_in_flight:
  assumes "getTask s tid = Some r" "r < length (heap s)" "\<not> useDaemon cfg"
  shows "in_flight (step s (ExecuteTask cfg tid)) (length (calls s)) r [] (task_output (deref s r))"
  using assms
  by (auto simp: executeTask_begin_def in_flight_def Let_def modify_def deref_def the_output_def
      execute_spawn_def new_CLIExecutor_def nth_append getTask_def)

lemma close_zero:
  assumes "in_flight s i r b out"
  shows "status (deref (onClose i (Some 0) now s) r) = Completed"
    "progress (deref (onClose i (Some 0) now s) r) = 100"
    "task_output (deref (onClose i (Some 0) now s) r) = b"
    "completedAt (deref (onClose i (Some 0) now s) r) = Some now"
    "c_result (calls (onClose i (Some 0) now s) ! i) = Some (Inr b)"
  using assms
  by (auto simp: in_flight_def onClose_def onProgress_def resolve_def finally_block_def
      with_executor_def modify_def modify_call_def the_output_def deref_def Let_def
      split: option.splits)

lemma close_nonzero:
  assumes "in_flight s i r b out" "code \<noteq> Some 0"
  shows "status (deref (onClose i code now s) r) = Failed"
    "task_output (deref (onClose i code now s) r) = out @ ''Exit code: '' @ show_code code"
    "error (deref (onClose i code now s) r) =
       Some (''Command failed with exit code '' @ show_code code @ [newline] @ b)"
    "completedAt (deref (onClose i code now s) r) = Some now"
    "c_result (calls (onClose i code now s) ! i) =
       Some (Inl (''Command failed with exit code '' @ show_code code @ [newline] @ b))"
  using assms
  by (auto simp: in_flight_def onClose_def onProgress_def reject_def finally_block_def
      with_executor_def modify_def modify_call_def the_output_def deref_def Let_def
      split: option.splits)

lemma run_process:
  assumes "getTask s tid = Some r" "r < length (heap s)" "\<not> useDaemon cfg"
  shows "run s (ExecuteTask cfg tid # map (chunk_event (length (calls s))) cs @ [Close (length (calls s)) code now])
         = onClose (length (calls s)) code now
             (run (step s (ExecuteTask cfg tid)) (map (chunk_event (length (calls s))) cs))"
    and "in_flight (run (step s (ExecuteTask cfg tid)) (map (chunk_event (length (calls s))) cs))
           (length (calls s)) r (chunk_text cs) (task_output (deref s r) @ chunk_text cs)"
proof -
  show "run s (ExecuteTask cfg tid # map (chunk_event (length (calls s))) cs @ [Close (length (calls s)) code now])
         = onClose (length (calls s)) code now
             (run (step s (ExecuteTask cfg tid)) (map (chunk_event (length (calls s))) cs))"
    by (simp add: run_def)
  from in_flight_chunks[OF begin_in_flight[OF assms], of cs]
  show "in_flight (run (step s (ExecuteTask cfg tid)) (map (chunk_event (length (calls s))) cs))
           (length (calls s)) r (chunk_text cs) (task_output (deref s r) @ chunk_text cs)"
    by simp
qed

lemma hello_facts:
  "getTask hello ''task-1-1000'' = Some 0" "length (heap hello) = 1" "length (calls hello) = 0"
  "task_output (deref hello 0) = []" "status (deref hello 0) = Pending"
  by (simp_all add: hello_def createTask_def generateTaskId_def new_TaskManager_def getTask_def
      deref_def show_nat.simps digit_def Let_def)

text \<open>
  C7. A process-mode \<open>executeTask\<close> on a tracked task whose child writes the chunks
  \<open>cs\<close> and then closes with exit code 0 leaves the task completed with progress 100,
  its output the accumulated text, its completion time set, and resolves with that text.
\<close>

theorem executeTask_exit_zero:
  assumes "getTask s tid = Some r" and "r < length (heap s)" and "\<not> useDaemon cfg"
    and "s2 = run s (ExecuteTask cfg tid # map (chunk_event (length (calls s))) cs
                      @ [Close (length (calls s)) (Some 0) now])"
  shows "status (deref s2 r) = Completed \<and> progress (deref s2 r) = 100 \<and>
         task_output (deref s2 r) = chunk_text cs \<and> completedAt (deref s2 r) = Some now \<and>
         c_result (calls s2 ! length (calls s)) = Some (Inr (chunk_text cs))"
proof -
  note r = run_process[OF assms(1-3), of cs]
  have s2: "s2 = onClose (length (calls s)) (Some 0) now
                   (run (step s (ExecuteTask cfg tid)) (map (chunk_event (length (calls s))) cs))"
    unfolding assms(4) by (rule r(1))
  show ?thesis
    unfolding s2 using close_zero[OF r(2)] by simp
qed

theorem executeTask_exit_zero_witness:
  "getTask hello ''task-1-1000'' = Some 0 \<and> 0 < length (heap hello) \<and> \<not> useDaemon cli_cfg \<and>
   status (deref (run hello [ExecuteTask cli_cfg ''task-1-1000'', Stdout 0 ''hi'' 1001,
                             Close 0 (Some 0) 1002]) 0) = Completed \<and>
   progress (deref (run hello [ExecuteTask cli_cfg ''task-1-1000'', Stdout 0 ''hi'' 1001,
                               Close 0 (Some 0) 1002]) 0) = 100 \<and>
   task_output (deref (run hello [ExecuteTask cli_cfg ''task-1-1000'', Stdout 0 ''hi'' 1001,
                                  Close 0 (Some 0) 1002]) 0) = ''hi'' \<and>
   completedAt (deref (run hello [ExecuteTask cli_cfg ''task-1-1000'', Stdout 0 ''hi'' 1001,
                                  Close 0 (Some 0) 1002]) 0) = Some 1002 \<and>
   c_result (calls (run hello [ExecuteTask cli_cfg ''task-1-1000'', Stdout 0 ''hi'' 1001,
                               Close 0 (Some 0) 1002]) ! 0) = Some (Inr ''hi'')"
  using executeTask_exit_zero[of hello "''task-1-1000''" 0 cli_cfg _ "[(False, ''hi'', 1001)]" 1002,
      OF _ _ _ refl]
  by (simp add: hello_facts cli_cfg_def chunk_event_def chunk_text_def)

text \<open>
  C8. When the child closes with any other exit code, the call rejects with a message
  that holds the exit code and the accumulated buffer, the task is failed with that
  message as its error, and the task's output is what it was, then every chunk written,
  then the text of the \<open>complete\<close> event.
\<close>

theorem executeTask_exit_nonzero:
  assumes "getTask s tid = Some r" and "r < length (heap s)" and "\<not> useDaemon cfg"
    and "code \<noteq> Some 0"
    and "s2 = run s (ExecuteTask cfg tid # map (chunk_event (length (calls s))) cs
                      @ [Close (length (calls s)) code now])"
  shows "c_result (calls s2 ! length (calls s)) =
           Some (Inl (''Command failed with exit code '' @ show_code code @ [newline]
                        @ chunk_text cs)) \<and>
         status (deref s2 r) = Failed \<and>
         error (deref s2 r) =
           Some (''Command failed with exit code '' @ show_code code @ [newline] @ chunk_text cs) \<and>
         task_output (deref s2 r) =
           task_output (deref s r) @ chunk_text cs @ ''Exit code: '' @ show_code code \<and>
         completedAt (deref s2 r) = Some now"
proof -
  note r = run_process[OF assms(1-3), of cs]
  have s2: "s2 = onClose (length (calls s)) code now
                   (run (step s (ExecuteTask cfg tid)) (map (chunk_event (length (calls s))) cs))"
    unfolding assms(5) by (rule r(1))
  show ?thesis
    unfolding s2 using close_nonzero[OF r(2) assms(4)] by simp
qed

theorem executeTask_exit_nonzero_witness:
  "getTask hello ''task-1-1000'' = Some 0 \<and> 0 < length (heap hello) \<and> \<not> useDaemon cli_cfg \<and>
   Some (2::int) \<noteq> Some 0 \<and>
   c_result (calls (run hello [ExecuteTask cli_cfg ''task-1-1000'', Stdout 0 ''boom'' 1001,
                               Close 0 (Some 2) 1002]) ! 0)
     = Some (Inl (''Command failed with exit code 2'' @ [newline] @ ''boom'')) \<and>
   status (deref (run hello [ExecuteTask cli_cfg ''task-1-1000'', Stdout 0 ''boom'' 1001,
                             Close 0 (Some 2) 1002]) 0) = Failed \<and>
   error (deref (run hello [ExecuteTask cli_cfg ''task-1-1000'', Stdout 0 ''boom'' 1001,
                            Close 0 (Some 2) 1002]) 0)
     = Some (''Command failed with exit code 2'' @ [newline] @ ''boom'') \<and>
   task_output (deref (run hello [ExecuteTask cli_cfg ''task-1-1000'', Stdout 0 ''boom'' 1001,
                                  Close 0 (Some 2) 1002]) 0) = ''boomExit code: 2''"
  using executeTask_exit_nonzero[of hello "''task-1-1000''" 0 cli_cfg "Some 2" _
      "[(False, ''boom'', 1001)]" 1002, OF _ _ _ _ refl]
  by (simp add: hello_facts cli_cfg_def chunk_event_def chunk_text_def show_code_def show_int_def
      show_nat_digit digit_def)


section \<open>The life cycle of a task\<close>

text \<open>
  C1. The statuses of the scenario's task when it is started in process mode, cancelled
  while the child runs, and the killed child then closes without an exit code: the
  \<open>catch\<close> block of \<open>executeTask\<close> overwrites \<open>cancelled\<close> with \<open>failed\<close>, so the task
  is given two terminal statuses.
\<close>

theorem cancelled_task_becomes_failed:
  "history 0 hello [ExecuteTask cli_cfg ''task-1-1000'', CancelTask ''task-1-1000'' 1001,
                    Close 0 None 1002] = [Running, Cancelled, Failed]"
  by (simp add: hello_def createTask_def generateTaskId_def new_TaskManager_def
      executeTask_begin_def cli_cfg_def modify_def deref_def show_nat.simps digit_def Let_def
      cancelTask_def with_executor_def modify_call_def cancel_def execute_spawn_def
      new_CLIExecutor_def buildArgs_def onClose_def onProgress_def reject_def finally_block_def
      the_output_def show_code_def)

text \<open>
  C2, as stated, fails: a running task dispatched in daemon mode has no executor under
  its id, so \<open>cancelTask\<close> returns false and the status is still running.
\<close>

theorem cancelTask_daemon_counterexample:
  "fst (cancelTask ''task-1-1000'' 1001 (step hello (ExecuteTask daemon_cfg ''task-1-1000''))) = False \<and>
   status (deref (snd (cancelTask ''task-1-1000'' 1001
             (step hello (ExecuteTask daemon_cfg ''task-1-1000'')))) 0) = Running"
  by (simp add: hello_def createTask_def generateTaskId_def new_TaskManager_def
      executeTask_begin_def daemon_cfg_def modify_def deref_def show_nat.simps digit_def Let_def
      cancelTask_def)

text \<open>
  C2, amended. For a task started in daemon mode with no executor tracked under its id,
  \<open>cancelTask\<close> returns false and leaves the registry as it is; the task stays running.
\<close>

theorem cancelTask_daemon_noop:
  assumes "getTask s tid = Some r" and "r < length (heap s)" and "useDaemon cfg"
    and "map_of (executors s) tid = None"
  shows "cancelTask tid now (step s (ExecuteTask cfg tid)) = (False, step s (ExecuteTask cfg tid)) \<and>
         status (deref (step s (ExecuteTask cfg tid)) r) = Running"
  using assms
  by (simp add: getTask_def executeTask_begin_def Let_def cancelTask_def modify_def deref_def)

theorem cancelTask_daemon_noop_witness:
  "getTask hello ''task-1-1000'' = Some 0 \<and> 0 < length (heap hello) \<and> useDaemon daemon_cfg \<and>
   map_of (executors hello) ''task-1-1000'' = None \<and>
   cancelTask ''task-1-1000'' 1001 (step hello (ExecuteTask daemon_cfg ''task-1-1000''))
     = (False, step hello (ExecuteTask daemon_cfg ''task-1-1000'')) \<and>
   status (deref (step hello (ExecuteTask daemon_cfg ''task-1-1000'')) 0) = Running"
proof -
  have h: "getTask hello ''task-1-1000'' = Some 0" "0 < length (heap hello)" "useDaemon daemon_cfg"
    "map_of (executors hello) ''task-1-1000'' = None"
    by (simp_all add: hello_def createTask_def generateTaskId_def new_TaskManager_def getTask_def
      deref_def show_nat.simps digit_def Let_def daemon_cfg_def)
  from cancelTask_daemon_noop[OF h] h show ?thesis by simp
qed

section \<open>What the registry hands out\<close>

text \<open>
  C3, as stated, fails: the \<open>Task\<close> that \<open>createTask\<close> returned reads \<open>pending\<close> and,
  once the registry has started the task, \<open>running\<close>; and a field written through it is
  what \<open>getTask\<close> then shows.
\<close>

theorem returned_task_counterexample:
  "status (deref hello (fst (createTask Claude ''hello'' 1000 new_TaskManager))) = Pending \<and>
   status (deref (step hello (ExecuteTask cli_cfg ''task-1-1000''))
            (fst (createTask Claude ''hello'' 1000 new_TaskManager))) = Running \<and>
   getTask hello ''task-1-1000'' = Some (fst (createTask Claude ''hello'' 1000 new_TaskManager)) \<and>
   prompt (deref hello (the (getTask hello ''task-1-1000''))) = ''hello'' \<and>
   prompt (deref (write_through (fst (createTask Claude ''hello'' 1000 new_TaskManager))
                   overwrite_prompt hello)
            (the (getTask hello ''task-1-1000''))) = ''changed''"
  by (simp add: hello_def createTask_def generateTaskId_def new_TaskManager_def getTask_def
      executeTask_begin_def cli_cfg_def modify_def deref_def show_nat.simps digit_def Let_def
      write_through_def overwrite_prompt_def)

lemma createTask_result:
  assumes "createTask a p now s = (r, s1)"
  shows "r = length (heap s)" "heap s1 = heap s @ [deref s1 r]"
    "map_of (tasks s1) (task_id (deref s1 r)) = Some r"
  using assms
  by (auto simp: createTask_def generateTaskId_def Let_def deref_def update_conv')

text \<open>
  C3, amended. The reference \<open>createTask\<close> returns is the one the registry stores:
  \<open>getTask\<close> returns it and \<open>getAllTasks\<close> lists it; a write through it changes the
  stored record, so that a caller who writes a finished status makes
  \<open>getCompletedTasks\<close> list the task; and the registry's own update of the task shows
  through it, \<open>getRunningTasks\<close> listing it once \<open>executeTask\<close> has started.
\<close>

theorem tasks_are_shared_references:
  assumes "createTask a p now s = (r, s1)"
  shows "getTask s1 (task_id (deref s1 r)) = Some r \<and>
         r \<in> set (getAllTasks s1) \<and>
         deref (write_through r f s1) r = f (deref s1 r) \<and>
         getTask (write_through r f s1) (task_id (deref s1 r)) = Some r \<and>
         (status (f (deref s1 r)) = Completed \<or> status (f (deref s1 r)) = Failed \<or>
          status (f (deref s1 r)) = Cancelled \<longrightarrow>
            r \<in> set (getCompletedTasks (write_through r f s1))) \<and>
         status (deref (step s1 (ExecuteTask cfg (task_id (deref s1 r)))) r) = Running \<and>
         r \<in> set (getRunningTasks (step s1 (ExecuteTask cfg (task_id (deref s1 r)))))"
proof -
  note c = createTask_result[OF assms]
  have len: "r < length (heap s1)" using c(1,2) by (metis length_append_singleton lessI)
  have mem: "r \<in> set (map snd (tasks s1))"
    using map_of_SomeD[OF c(3)] by force
  have run: "status (deref (step s1 (ExecuteTask cfg (task_id (deref s1 r)))) r) = Running"
    using c(3) len by (simp add: executeTask_begin_def Let_def modify_def deref_def)
  have tasks_same: "tasks (step s1 (ExecuteTask cfg (task_id (deref s1 r)))) = tasks s1"
    using c(3) by (simp add: executeTask_begin_def Let_def modify_def)
  show ?thesis
    using c(3) len mem run tasks_same
    by (simp add: getTask_def getAllTasks_def getRunningTasks_def getCompletedTasks_def
        write_through_def modify_def deref_def)
qed

theorem tasks_are_shared_references_witness:
  "createTask Claude ''hello'' 1000 new_TaskManager = (0, hello) \<and>
   getTask hello ''task-1-1000'' = Some 0 \<and>
   0 \<in> set (getAllTasks hello) \<and>
   status (mark_completed (deref hello 0)) = Completed \<and>
   0 \<in> set (getCompletedTasks (write_through 0 mark_completed hello)) \<and>
   status (deref (step hello (ExecuteTask cli_cfg ''task-1-1000'')) 0) = Running \<and>
   0 \<in> set (getRunningTasks (step hello (ExecuteTask cli_cfg ''task-1-1000'')))"
proof -
  have h: "createTask Claude ''hello'' 1000 new_TaskManager = (0, hello)"
    by (simp add: hello_def createTask_def generateTaskId_def new_TaskManager_def Let_def)
  have i: "task_id (deref hello 0) = ''task-1-1000''"
    by (simp add: hello_def createTask_def generateTaskId_def new_TaskManager_def Let_def
        deref_def show_nat.simps digit_def)
  have m: "status (mark_completed (deref hello 0)) = Completed"
    by (simp add: mark_completed_def)
  from tasks_are_shared_references[OF h, of mark_completed cli_cfg] h m show ?thesis
    unfolding i by simp
qed

section \<open>Starting a daemon\<close>

lemma runWslCommand_ok:
  "\<not> throws res \<Longrightarrow> runWslCommand cmd res d = (Inr (stdout_of res), d\<lparr>issued := issued d @ [cmd]\<rparr>)"
  by (auto simp: throws_def stdout_of_def runWslCommand_def split: exec_result.splits)


text \<open>
  C10. \<open>start\<close> returns a boolean whatever its two commands do: true exactly when the
  listing did not throw and either names the session or the creation did not throw
  either. When it returns true the running flag is set; when it returns false the flag
  is as it was, so a daemon that was not running is still not running.
\<close>

theorem start_returns_boolean:
  "fst (start k list_res new_res d) =
     (\<not> throws list_res \<and> (includes_str (stdout_of list_res) (SESSION_NAME k) \<or> \<not> throws new_res)) \<and>
   isRunning (snd (start k list_res new_res d)) = (fst (start k list_res new_res d) \<or> isRunning d) \<and>
   mode (snd (start k list_res new_res d)) = mode d"
  by (auto simp: start_def throws_def stdout_of_def runWslCommand_def split: exec_result.splits)

theorem start_returns_boolean_witness:
  "fst (start Gemini (Threw [] ''spawnSync wsl ENOENT'') (Exited []) new_Daemon) = False \<and>
   isRunning (snd (start Gemini (Threw [] ''spawnSync wsl ENOENT'') (Exited []) new_Daemon)) = False \<and>
   fst (start Claude (Exited []) (Threw [] ''spawnSync wsl ETIMEDOUT'') new_Daemon) = False \<and>
   isRunning (snd (start Claude (Exited []) (Threw [] ''spawnSync wsl ETIMEDOUT'') new_Daemon)) = False \<and>
   fst (start Gemini (Exited ''gemini-daemon: 1 windows'') (Exited []) new_Daemon) = True \<and>
   isRunning (snd (start Gemini (Exited ''gemini-daemon: 1 windows'') (Exited []) new_Daemon)) = True \<and>
   fst (start Claude (Exited []) (Exited []) new_Daemon) = True \<and>
   isRunning (snd (start Claude (Exited []) (Exited []) new_Daemon)) = True"
  using start_returns_boolean[of Gemini "Threw [] ''spawnSync wsl ENOENT''" "Exited []" new_Daemon]
    start_returns_boolean[of Claude "Exited []" "Threw [] ''spawnSync wsl ETIMEDOUT''" new_Daemon]
    start_returns_boolean[of Gemini "Exited ''gemini-daemon: 1 windows''" "Exited []" new_Daemon]
    start_returns_boolean[of Claude "Exited []" "Exited []" new_Daemon]
  by (simp add: throws_def stdout_of_def new_Daemon_def SESSION_NAME_def)

section \<open>The automatic response\<close>

lemma tmuxKey_y: "tmuxKey k ''y'' = ''y''"
  by (cases k) (simp_all add: tmuxKey_def keyMap_def toLowerCase_def)

lemma tmuxKey_enter: "tmuxKey k ''enter'' = ''Enter''"
  by (cases k) (simp_all add: tmuxKey_def keyMap_def toLowerCase_def)

lemma sendKey_ok:
  "isRunning d \<Longrightarrow> \<not> throws res \<Longrightarrow>
   sendKey k key res d = (Inr (), d\<lparr>issued := issued d @ [send_keys_cmd k (tmuxKey k key)]\<rparr>)"
  by (simp add: sendKey_def runWslCommand_ok)

lemma sendKeys2_ok:
  "isRunning d \<Longrightarrow> \<not> throws res1 \<Longrightarrow> \<not> throws res2 \<Longrightarrow>
   sendKeys2 k key1 key2 res1 res2 d =
     (Inr (), d\<lparr>issued := issued d @ [send_keys_cmd k (tmuxKey k key1), send_keys_cmd k (tmuxKey k key2)]\<rparr>)"
  by (simp add: sendKeys2_def sendKey_ok)

lemma autoRespond_ok:
  assumes "isRunning d" and "\<not> throws res1" and "\<not> throws res2"
  shows "autoRespond k choice res1 res2 d =
           (Inr (), d\<lparr>issued := issued d @ map (send_keys_cmd k)
              (if ''y'' \<in> set (options choice) then [''y'', ''Enter'']
               else if ''enter'' \<in> set (options choice) then [''Enter'']
               else if options choice = [] then []
               else [tmuxKey k (hd (options choice)), ''Enter''])\<rparr>)"
  using assms
  by (cases "options choice") (simp_all add: autoRespond_def sendKey_ok sendKeys2_ok tmuxKey_y tmuxKey_enter)

text \<open>
  C9. In a running daemon whose \<open>send-keys\<close> commands do not throw, \<open>autoRespond\<close>
  sends \<open>y\<close> then Enter when \<open>y\<close> is among the options; otherwise a bare Enter when
  \<open>enter\<close> is among them; otherwise the first option then Enter. A pass of the loop that
  detects a choice in auto mode sends exactly these keys after its two reads, resets the
  stability counter and keeps the recorded size and text.
\<close>

theorem auto_response_preference:
  assumes "isRunning d" and "\<not> throws res1" and "\<not> throws res2"
  shows "autoRespond k choice res1 res2 d =
           (Inr (), d\<lparr>issued := issued d @ map (send_keys_cmd k)
              (if ''y'' \<in> set (options choice) then [''y'', ''Enter'']
               else if ''enter'' \<in> set (options choice) then [''Enter'']
               else if options choice = [] then []
               else [tmuxKey k (hd (options choice)), ''Enter''])\<rparr>) \<and>
         (mode d = Auto \<and> \<not> throws (tail_out t) \<and>
          detectChoice k (cleanOutput (stdout_of (tail_out t))) = Some choice \<and>
          key1_out t = res1 \<and> key2_out t = res2 \<longrightarrow>
            poll k before t (n, ls, lo) d =
              (Continue 0 ls lo,
               d\<lparr>issued := issued d @ [stat_cmd k, tail_cmd k before] @ map (send_keys_cmd k)
                  (if ''y'' \<in> set (options choice) then [''y'', ''Enter'']
                   else if ''enter'' \<in> set (options choice) then [''Enter'']
                   else if options choice = [] then []
                   else [tmuxKey k (hd (options choice)), ''Enter''])\<rparr>))"
proof (intro conjI impI)
  show "autoRespond k choice res1 res2 d =
           (Inr (), d\<lparr>issued := issued d @ map (send_keys_cmd k)
              (if ''y'' \<in> set (options choice) then [''y'', ''Enter'']
               else if ''enter'' \<in> set (options choice) then [''Enter'']
               else if options choice = [] then []
               else [tmuxKey k (hd (options choice)), ''Enter''])\<rparr>)"
    by (rule autoRespond_ok[OF assms])
next
  assume a: "mode d = Auto \<and> \<not> throws (tail_out t) \<and>
          detectChoice k (cleanOutput (stdout_of (tail_out t))) = Some choice \<and>
          key1_out t = res1 \<and> key2_out t = res2"
  let ?d2 = "d\<lparr>issued := issued d @ [stat_cmd k, tail_cmd k before]\<rparr>"
  have r: "isRunning ?d2" using assms(1) by simp
  from a have t: "\<not> throws (tail_out t)" by simp
  show "poll k before t (n, ls, lo) d =
              (Continue 0 ls lo,
               d\<lparr>issued := issued d @ [stat_cmd k, tail_cmd k before] @ map (send_keys_cmd k)
                  (if ''y'' \<in> set (options choice) then [''y'', ''Enter'']
                   else if ''enter'' \<in> set (options choice) then [''Enter'']
                   else if options choice = [] then []
                   else [tmuxKey k (hd (options choice)), ''Enter''])\<rparr>)"
    using a autoRespond_ok[OF r assms(2,3), of k choice]
    by (simp add: poll_def getOutputSize_def runWslCommand_ok[OF t]
        runWslCommand_def[of "stat_cmd k"] Let_def)
qed

lemma asking: "detectChoice Gemini (cleanOutput ''Proceed? (y/n)'')
    = Some \<lparr>options = [''y'', ''n''], choice_prompt = ''Yes or No?''\<rparr>"
  by code_simp

lemma tmuxKey_1: "tmuxKey Gemini ''1'' = ''1''"
  by (simp add: tmuxKey_def keyMap_def toLowerCase_def)

theorem auto_response_preference_witness:
  "isRunning auto_daemon \<and> \<not> throws (Exited []) \<and> mode auto_daemon = Auto \<and>
   \<not> throws (tail_out asking_tick) \<and>
   detectChoice Gemini (cleanOutput (stdout_of (tail_out asking_tick)))
     = Some \<lparr>options = [''y'', ''n''], choice_prompt = ''Yes or No?''\<rparr> \<and>
   poll Gemini 1 asking_tick (2, 9, ''Proceed?'') auto_daemon =
     (Continue 0 9 ''Proceed?'',
      auto_daemon\<lparr>issued := [stat_cmd Gemini, tail_cmd Gemini 1, send_keys_cmd Gemini ''y'',
                              send_keys_cmd Gemini ''Enter'']\<rparr>) \<and>
   snd (autoRespond Gemini \<lparr>options = [''enter''], choice_prompt = ''Press Enter to continue''\<rparr>
          (Exited []) (Exited []) auto_daemon)
     = auto_daemon\<lparr>issued := [send_keys_cmd Gemini ''Enter'']\<rparr> \<and>
   snd (autoRespond Gemini \<lparr>options = [''1'', ''2'', ''3''], choice_prompt = ''Select an option (1-3)''\<rparr>
          (Exited []) (Exited []) auto_daemon)
     = auto_daemon\<lparr>issued := [send_keys_cmd Gemini ''1'', send_keys_cmd Gemini ''Enter'']\<rparr>"
proof -
  have h: "isRunning auto_daemon" "\<not> throws (Exited [])" "mode auto_daemon = Auto"
    "\<not> throws (tail_out asking_tick)" "key1_out asking_tick = Exited []"
    "key2_out asking_tick = Exited []" "issued auto_daemon = []"
    by (simp_all add: auto_daemon_def throws_def asking_tick_def)
  have c: "detectChoice Gemini (cleanOutput (stdout_of (tail_out asking_tick)))
     = Some \<lparr>options = [''y'', ''n''], choice_prompt = ''Yes or No?''\<rparr>"
    by (simp add: asking_tick_def stdout_of_def asking)
  from auto_response_preference[OF h(1,2,2), of Gemini
      "\<lparr>options = [''y'', ''n''], choice_prompt = ''Yes or No?''\<rparr>" asking_tick 1 2 9 "''Proceed?''"]
    auto_response_preference[OF h(1,2,2), of Gemini
      "\<lparr>options = [''enter''], choice_prompt = ''Press Enter to continue''\<rparr>"]
    auto_response_preference[OF h(1,2,2), of Gemini
      "\<lparr>options = [''1'', ''2'', ''3''], choice_prompt = ''Select an option (1-3)''\<rparr>"]
    h c
  show ?thesis by (simp add: tmuxKey_1)
qed

section \<open>The completion-detection loop\<close>

lemma poll_quiet:
  assumes "quiet_tick k t sz c"
  shows "poll k before t st d = (stability before sz c st, polled k before (Suc 0) d)"
proof -
  from assms have a: "sizeOf (stat_out t) = sz" "\<not> throws (tail_out t)"
    "cleanOutput (stdout_of (tail_out t)) = c" "detectChoice k c = None"
    by (simp_all add: quiet_tick_def)
  show ?thesis
    by (cases st)
       (simp add: poll_def getOutputSize_def runWslCommand_ok[OF a(2)] a polled_def
         runWslCommand_def[of "stat_cmd k"] Let_def)
qed

lemma polled_polled: "polled k b m (polled k b (Suc 0) d) = polled k b (Suc m) d"
  by (simp add: polled_def)

lemma waitLoop_stable:
  "n + m = 4 \<Longrightarrow> 0 < m \<Longrightarrow> before < sz \<Longrightarrow>
   (\<forall>j<m. quiet_tick k (env (i + j)) sz c) \<Longrightarrow>
   elapsed + (\<Sum>j<m - 1. 500 + extra_ms (env (i + j))) < timeoutMs \<Longrightarrow>
   waitLoop k env before timeoutMs i elapsed (n, sz, c) d = (Stable c, polled k before m d)"
proof (induction m arbitrary: n i elapsed d)
  case 0
  then show ?case by simp
next
  case (Suc m)
  have q0: "quiet_tick k (env i) sz c" using Suc.prems(4) by force
  have lt: "elapsed < timeoutMs" using Suc.prems(5) by simp
  show ?case
  proof (cases "m = 0")
    case True
    with Suc.prems(1) have n: "n = 3" by simp
    show ?thesis
      unfolding True n
      by (subst waitLoop.simps) (simp add: lt poll_quiet[OF q0] stability_def Suc.prems(3))
  next
    case False
    then have m: "0 < m" by simp
    from Suc.prems(1) m have n: "n < 3" "Suc n + m = 4" by simp_all
    have q: "\<forall>j<m. quiet_tick k (env (Suc i + j)) sz c"
      using Suc.prems(4) by (metis Suc_less_eq add_Suc_shift)
    obtain m' where m': "m = Suc m'" using m by (cases m) auto
    have "(\<Sum>j<Suc m'. 500 + extra_ms (env (i + j)))
          = (500 + extra_ms (env i)) + (\<Sum>j<m'. 500 + extra_ms (env (Suc i + j)))"
      by (simp add: sum.lessThan_Suc_shift del: sum.lessThan_Suc)
    with Suc.prems(5) have t: "(elapsed + 500 + extra_ms (env i))
          + (\<Sum>j<m - 1. 500 + extra_ms (env (Suc i + j))) < timeoutMs"
      by (simp add: m')
    have step: "waitLoop k env before timeoutMs i elapsed (n, sz, c) d
        = waitLoop k env before timeoutMs (Suc i) (elapsed + 500 + extra_ms (env i))
            (Suc n, sz, c) (polled k before (Suc 0) d)"
      using n(1)
      by (subst waitLoop.simps) (simp add: lt poll_quiet[OF q0] stability_def Suc.prems(3))
    show ?thesis
      unfolding step
      using Suc.IH[OF n(2) m Suc.prems(3) q t] by (simp add: polled_polled)
  qed
qed

lemma waitLoop_first:
  assumes "before < sz" "quiet_tick k (env 0) sz c" "0 < timeoutMs"
  shows "waitLoop k env before timeoutMs 0 0 (0, before, []) d
         = waitLoop k env before timeoutMs 1 (500 + extra_ms (env 0)) (0, sz, c) (polled k before (Suc 0) d)"
  using assms
  by (subst waitLoop.simps) (simp add: poll_quiet[OF assms(2)] stability_def)


lemma sendPrompt_loop:
  assumes "\<not> throws (clear_out w)" "\<not> throws (send_out w)"
  shows "sendPrompt k p w d =
     (case waitForOutputWithChoiceDetection k (ticks w) (final_out w) (sizeOf (before_out w))
             (promptTimeout k) (at_loop_entry k p w d) of
        (Inl e, d4) \<Rightarrow> (Inl (daemon_error k e), d4)
      | (Inr out, d4) \<Rightarrow> (Inr out, d4))"
  by (simp add: sendPrompt_def at_loop_entry_def runWslCommand_ok[OF assms(1)]
      runWslCommand_ok[OF assms(2)] getOutputSize_def Let_def)

lemma promptTimeout_pos: "0 < promptTimeout k"
  by (simp add: promptTimeout_def)

lemma wait_stable:
  assumes "before < sz" "\<forall>j<5. quiet_tick k (env j) sz c"
    "(\<Sum>j<4. 500 + extra_ms (env j)) < timeoutMs"
  shows "waitForOutputWithChoiceDetection k env fin before timeoutMs d
         = (Inr c, polled k before 5 d)"
proof -
  have q0: "quiet_tick k (env 0) sz c" using assms(2) by simp
  have q: "\<forall>j<4. quiet_tick k (env (1 + j)) sz c" using assms(2) by simp
  have pos: "0 < timeoutMs" using assms(3) by simp
  have "(\<Sum>j<Suc 3. 500 + extra_ms (env j))
        = (500 + extra_ms (env 0)) + (\<Sum>j<3. 500 + extra_ms (env (1 + j)))"
    by (simp only: sum.lessThan_Suc_shift) simp
  with assms(3) have t: "(500 + extra_ms (env 0)) + (\<Sum>j<4 - 1. 500 + extra_ms (env (1 + j))) < timeoutMs"
    by simp
  have "waitLoop k env before timeoutMs 0 0 (0, before, []) d
        = (Stable c, polled k before 4 (polled k before (Suc 0) d))"
    unfolding waitLoop_first[of before sz k env c timeoutMs d, OF assms(1) q0 pos]
    by (rule waitLoop_stable[OF _ _ assms(1) q t]) simp_all
  then show ?thesis
    by (simp add: waitForOutputWithChoiceDetection_def polled_polled)
qed

text \<open>
  C4. In a pass that detects no choice, the counter goes up by one when the size is
  past the baseline and both size and cleaned text equal the recorded ones, and the pass
  returns the cleaned text when that makes four; otherwise the counter is reset and size
  and text are recorded. From a counter of \<open>n\<close>, \<open>4 - n\<close> further such passes inside the
  timeout make the loop return that text. So a \<open>sendPrompt\<close> whose first five passes
  read the same grown size and the same text returns exactly that text.
\<close>

theorem stable_output_is_returned:
  "(quiet_tick k t sz c \<longrightarrow>
      fst (poll k before t (n, ls, lo) d) =
        (if before < sz \<and> sz = ls \<and> c = lo
         then (if 4 \<le> n + 1 then Return c else Continue (n + 1) sz c)
         else Continue 0 sz c)) \<and>
   (n + m = 4 \<and> 0 < m \<and> before < sz \<and> (\<forall>j<m. quiet_tick k (env (i + j)) sz c) \<and>
    elapsed + (\<Sum>j<m - 1. 500 + extra_ms (env (i + j))) < timeoutMs \<longrightarrow>
      waitLoop k env before timeoutMs i elapsed (n, sz, c) d = (Stable c, polled k before m d)) \<and>
   (\<not> throws (clear_out w) \<and> \<not> throws (send_out w) \<and> sizeOf (before_out w) < sz \<and>
    (\<forall>j<5. quiet_tick k (ticks w j) sz c) \<and>
    (\<Sum>j<4. 500 + extra_ms (ticks w j)) < promptTimeout k \<longrightarrow>
      fst (sendPrompt k p w d) = Inr c)"
proof (intro conjI impI)
  assume "quiet_tick k t sz c"
  then show "fst (poll k before t (n, ls, lo) d) =
        (if before < sz \<and> sz = ls \<and> c = lo
         then (if 4 \<le> n + 1 then Return c else Continue (n + 1) sz c)
         else Continue 0 sz c)"
    by (auto simp: poll_quiet stability_def)
next
  assume "n + m = 4 \<and> 0 < m \<and> before < sz \<and> (\<forall>j<m. quiet_tick k (env (i + j)) sz c) \<and>
    elapsed + (\<Sum>j<m - 1. 500 + extra_ms (env (i + j))) < timeoutMs"
  then show "waitLoop k env before timeoutMs i elapsed (n, sz, c) d = (Stable c, polled k before m d)"
    using waitLoop_stable by blast
next
  assume a: "\<not> throws (clear_out w) \<and> \<not> throws (send_out w) \<and> sizeOf (before_out w) < sz \<and>
    (\<forall>j<5. quiet_tick k (ticks w j) sz c) \<and>
    (\<Sum>j<4. 500 + extra_ms (ticks w j)) < promptTimeout k"
  then have 1: "\<not> throws (clear_out w)" and 2: "\<not> throws (send_out w)"
    and 3: "sizeOf (before_out w) < sz" and 4: "\<forall>j<5. quiet_tick k (ticks w j) sz c"
    and 5: "(\<Sum>j<4. 500 + extra_ms (ticks w j)) < promptTimeout k"
    by blast+
  show "fst (sendPrompt k p w d) = Inr c"
    by (simp add: sendPrompt_loop[OF 1 2] wait_stable[OF 3 4 5])
qed

lemma size_one: "sizeOf (Exited [CHR ''1'', newline]) = 1"
  by (simp add: sizeOf_def parseInt_or_0_def trim_def white_def digits_value_def is_digit_def
      newline_def)

lemma detect_done: "detectChoice Gemini ''done'' = None"
  by code_simp

lemma clean_done: "cleanOutput [CHR ''d'', CHR ''o'', CHR ''n'', CHR ''e'', newline] = ''done''"
  by code_simp

lemma size_six: "sizeOf (Exited [CHR ''6'', newline]) = 6"
  by (simp add: sizeOf_def parseInt_or_0_def trim_def white_def digits_value_def is_digit_def
      newline_def)

lemma done_quiet: "quiet_tick Gemini done_tick 6 ''done''"
  by (simp add: quiet_tick_def done_tick_def throws_def stdout_of_def detect_done clean_done
      size_six)

theorem stable_output_is_returned_witness:
  "quiet_tick Gemini done_tick 6 ''done'' \<and>
   fst (poll Gemini 1 done_tick (3, 6, ''done'') running_daemon) = Return ''done'' \<and>
   fst (poll Gemini 1 done_tick (2, 6, ''done'') running_daemon) = Continue 3 6 ''done'' \<and>
   fst (poll Gemini 1 done_tick (2, 5, ''don'') running_daemon) = Continue 0 6 ''done'' \<and>
   waitLoop Gemini (ticks done_world) 1 60000 7 3640 (0, 6, ''done'') running_daemon
     = (Stable ''done'', polled Gemini 1 4 running_daemon) \<and>
   \<not> throws (clear_out done_world) \<and> \<not> throws (send_out done_world) \<and>
   sizeOf (before_out done_world) < 6 \<and>
   (\<Sum>j<4. 500 + extra_ms (ticks done_world j)) < promptTimeout Gemini \<and>
   fst (sendPrompt Gemini ''hello'' done_world running_daemon) = Inr ''done''"
proof -
  have q: "\<And>j. quiet_tick Gemini (ticks done_world j) 6 ''done''"
    by (simp add: done_world_def done_quiet)
  have h: "\<not> throws (clear_out done_world)" "\<not> throws (send_out done_world)"
    "sizeOf (before_out done_world) < 6"
    "(\<Sum>j<4. 500 + extra_ms (ticks done_world j)) < promptTimeout Gemini"
    by (simp_all add: done_world_def throws_def size_one done_tick_def promptTimeout_def)
  have t: "3640 + (\<Sum>j<4 - 1. 500 + extra_ms (ticks done_world (7 + j))) < (60000::nat)"
    by (simp add: done_world_def done_tick_def)
  note a = stable_output_is_returned[of Gemini done_tick 6 "''done''" 1 3 6 "''done''" running_daemon
      1 "ticks done_world" 0 0 60000 done_world "''hello''"]
  note b = stable_output_is_returned[of Gemini done_tick 6 "''done''" 1 2 6 "''done''" running_daemon
      2 "ticks done_world" 0 0 60000 done_world "''hello''"]
  note c = stable_output_is_returned[of Gemini done_tick 6 "''done''" 1 2 5 "''don''" running_daemon
      2 "ticks done_world" 0 0 60000 done_world "''hello''"]
  note e = stable_output_is_returned[of Gemini done_tick 6 "''done''" 1 0 6 "''done''" running_daemon
      4 "ticks done_world" 7 3640 60000 done_world "''hello''"]
  from a b c e q h t done_quiet show ?thesis by simp
qed

lemma never_stable:
  assumes "\<forall>j. quiet_tick k (env j) sz c" "sz \<le> before"
  shows "fst (waitLoop k env before timeoutMs i elapsed st d) = Expired"
proof (induction "timeoutMs - elapsed" arbitrary: i elapsed st d rule: less_induct)
  case less
  show ?case
  proof (cases "elapsed < timeoutMs")
    case False
    then show ?thesis by (subst waitLoop.simps) simp
  next
    case True
    have q: "quiet_tick k (env i) sz c" using assms(1) by simp
    have st: "stability before sz c st = Continue 0 sz c"
      using assms(2) by (cases st) (simp add: stability_def)
    have "timeoutMs - (elapsed + 500 + extra_ms (env i)) < timeoutMs - elapsed"
      using True by simp
    from less[OF this] show ?thesis
      by (subst waitLoop.simps) (simp add: True poll_quiet[OF q] st)
  qed
qed

lemma detect_empty: "detectChoice Gemini [] = None"
  by code_simp

lemma clean_empty: "cleanOutput [] = []"
  by code_simp

lemma silent_quiet: "quiet_tick Gemini silent_tick 1 []"
  by (simp add: quiet_tick_def silent_tick_def throws_def stdout_of_def detect_empty clean_empty
      size_one)

lemma silent_expires:
  "fst (waitLoop Gemini (\<lambda>i. silent_tick) 1 (promptTimeout Gemini) 0 0 (0, 1, []) d) = Expired"
  by (rule never_stable[where sz = 1 and c = "[]"]) (simp_all add: silent_quiet)

lemma expired_then_read:
  assumes "\<not> throws (clear_out w)" and "\<not> throws (send_out w)"
    and "fst (waitLoop k (ticks w) (sizeOf (before_out w)) (promptTimeout k) 0 0
               (0, sizeOf (before_out w), []) (at_loop_entry k p w d)) = Expired"
  shows "\<exists>d1. fst (sendPrompt k p w d) =
           (case fst (runWslCommand (tail_cmd k (sizeOf (before_out w))) (final_out w) d1) of
              Inl e \<Rightarrow> Inl (daemon_error k e)
            | Inr finalOutput \<Rightarrow> Inr (cleanOutput finalOutput))"
proof -
  obtain d1 where l: "waitLoop k (ticks w) (sizeOf (before_out w)) (promptTimeout k) 0 0
               (0, sizeOf (before_out w), []) (at_loop_entry k p w d) = (Expired, d1)"
    using assms(3) by (metis prod.collapse)
  have "fst (sendPrompt k p w d) =
           (case fst (runWslCommand (tail_cmd k (sizeOf (before_out w))) (final_out w) d1) of
              Inl e \<Rightarrow> Inl (daemon_error k e)
            | Inr finalOutput \<Rightarrow> Inr (cleanOutput finalOutput))"
    by (simp add: sendPrompt_loop[OF assms(1,2)] waitForOutputWithChoiceDetection_def l
        split: prod.splits sum.splits)
  then show ?thesis ..
qed

text \<open>
  C5, as stated, fails: the tool is silent, the loop is left because its time is up, the
  read after the loop throws, and the call fails with the wrapped error.
\<close>

theorem timeout_read_failure_counterexample:
  "fst (waitLoop Gemini (ticks broken_world) (sizeOf (before_out broken_world))
          (promptTimeout Gemini) 0 0 (0, sizeOf (before_out broken_world), [])
          (at_loop_entry Gemini ''hello'' broken_world running_daemon)) = Expired \<and>
   fst (sendPrompt Gemini ''hello'' broken_world running_daemon)
     = Inl ''Gemini daemon error: tail failed''"
proof -
  have h: "\<not> throws (clear_out broken_world)" "\<not> throws (send_out broken_world)"
    by (simp_all add: broken_world_def silent_world_def throws_def)
  have e: "fst (waitLoop Gemini (ticks broken_world) (sizeOf (before_out broken_world))
          (promptTimeout Gemini) 0 0 (0, sizeOf (before_out broken_world), [])
          (at_loop_entry Gemini ''hello'' broken_world running_daemon)) = Expired"
    by (simp add: broken_world_def silent_world_def size_one silent_expires)
  from expired_then_read[OF h e] e show ?thesis
    by (auto simp: broken_world_def silent_world_def runWslCommand_def daemon_error_def Tool_def)
qed

text \<open>
  C5, amended. When the loop of a \<open>sendPrompt\<close> call is left because its time is up, the
  timeout is not a failure: the call reads the output once more from the baseline
  offset. When that read does not throw, the call returns its text, cleaned; when it
  throws, the call fails with the wrapped error of the read.
\<close>

theorem timeout_returns_partial_output:
  assumes "\<not> throws (clear_out w)" and "\<not> throws (send_out w)"
    and "fst (waitLoop k (ticks w) (sizeOf (before_out w)) (promptTimeout k) 0 0
               (0, sizeOf (before_out w), []) (at_loop_entry k p w d)) = Expired"
  shows "(\<not> throws (final_out w) \<longrightarrow>
            fst (sendPrompt k p w d) = Inr (cleanOutput (stdout_of (final_out w)))) \<and>
         (\<forall>msg. final_out w = Threw [] msg \<longrightarrow>
            fst (sendPrompt k p w d) = Inl (daemon_error k msg))"
proof -
  from expired_then_read[OF assms] obtain d1 where
    r: "fst (sendPrompt k p w d) =
           (case fst (runWslCommand (tail_cmd k (sizeOf (before_out w))) (final_out w) d1) of
              Inl e \<Rightarrow> Inl (daemon_error k e)
            | Inr finalOutput \<Rightarrow> Inr (cleanOutput finalOutput))"
    by blast
  show ?thesis
    unfolding r
    by (auto simp: runWslCommand_def throws_def stdout_of_def split: exec_result.splits)
qed

theorem timeout_returns_partial_output_witness:
  "\<not> throws (clear_out silent_world) \<and> \<not> throws (send_out silent_world) \<and>
   \<not> throws (final_out silent_world) \<and>
   fst (waitLoop Gemini (ticks silent_world) (sizeOf (before_out silent_world))
          (promptTimeout Gemini) 0 0 (0, sizeOf (before_out silent_world), [])
          (at_loop_entry Gemini ''hello'' silent_world running_daemon)) = Expired \<and>
   fst (sendPrompt Gemini ''hello'' silent_world running_daemon) = Inr [] \<and>
   \<not> throws (clear_out broken_world) \<and> \<not> throws (send_out broken_world) \<and>
   final_out broken_world = Threw [] ''tail failed'' \<and>
   fst (waitLoop Gemini (ticks broken_world) (sizeOf (before_out broken_world))
          (promptTimeout Gemini) 0 0 (0, sizeOf (before_out broken_world), [])
          (at_loop_entry Gemini ''hello'' broken_world running_daemon)) = Expired \<and>
   fst (sendPrompt Gemini ''hello'' broken_world running_daemon)
     = Inl (daemon_error Gemini ''tail failed'')"
proof -
  have h: "\<not> throws (clear_out silent_world)" "\<not> throws (send_out silent_world)"
    "\<not> throws (final_out silent_world)"
    by (simp_all add: silent_world_def throws_def)
  have e: "fst (waitLoop Gemini (ticks silent_world) (sizeOf (before_out silent_world))
          (promptTimeout Gemini) 0 0 (0, sizeOf (before_out silent_world), [])
          (at_loop_entry Gemini ''hello'' silent_world running_daemon)) = Expired"
    by (simp add: silent_world_def size_one silent_expires)
  have f: "cleanOutput (stdout_of (final_out silent_world)) = []"
    by (simp add: silent_world_def stdout_of_def clean_empty)
  have h': "\<not> throws (clear_out broken_world)" "\<not> throws (send_out broken_world)"
    "final_out broken_world = Threw [] ''tail failed''"
    by (simp_all add: broken_world_def silent_world_def throws_def)
  have e': "fst (waitLoop Gemini (ticks broken_world) (sizeOf (before_out broken_world))
          (promptTimeout Gemini) 0 0 (0, sizeOf (before_out broken_world), [])
          (at_loop_entry Gemini ''hello'' broken_world running_daemon)) = Expired"
    by (simp add: broken_world_def silent_world_def size_one silent_expires)
  from timeout_returns_partial_output[OF h(1,2) e]
    timeout_returns_partial_output[OF h'(1,2) e'] h e h' e'
  show ?thesis by (simp add: f)
qed

section \<open>Choice detection\<close>

lemma ends_lit_i:
  "map canonicalize t = map canonicalize pat \<Longrightarrow>
   ends (lit_i pat) (p, t @ post) = [(if t = [] then p else Some (last t), post)]"
proof (induction pat arbitrary: t p)
  case Nil
  then show ?case by (simp add: lit_i_def seqs_def)
next
  case (Cons x xs)
  then obtain a t' where t: "t = a # t'" and a: "canonicalize a = canonicalize x"
    and t': "map canonicalize t' = map canonicalize xs"
    by (cases t) auto
  have "ends (lit_i (x # xs)) (p, t @ post) = ends (lit_i xs) (Some a, t' @ post)"
    by (simp add: lit_i_def seqs_def chr_i_def t a)
  then show ?case
    using Cons.IH[OF t', of "Some a"] by (simp add: t)
qed

lemma search_append:
  "ends r (if pre = [] then p else Some (last pre), s) \<noteq> [] \<Longrightarrow> search r (p, pre @ s) \<noteq> None"
proof (induction pre arbitrary: p)
  case Nil
  then show ?case by (cases s) (auto split: list.splits)
next
  case (Cons a pre)
  from Cons.prems have "ends r (if pre = [] then Some a else Some (last pre), s) \<noteq> []"
    by (simp split: if_splits)
  from Cons.IH[OF this] show ?case
    by (auto split: list.splits)
qed

lemma test_lit_i:
  assumes "map canonicalize t = map canonicalize pat"
  shows "test (lit_i pat) (pre @ t @ post)"
  unfolding test_def
  by (rule search_append) (simp add: ends_lit_i[OF assms])

lemma fold_bracket: "map canonicalize ''[y/N]'' = map canonicalize ''[y/n]''"
  by (simp add: canonicalize_def)

lemma yes_no_found:
  assumes "map canonicalize t = map canonicalize ''(y/n)'' \<or>
           map canonicalize t = map canonicalize ''[y/n]''"
  shows "yes_no (pre @ t @ post)"
  using assms
proof
  assume "map canonicalize t = map canonicalize ''(y/n)''"
  then have "test (lit_i ''(y/n)'') (pre @ t @ post)" by (rule test_lit_i)
  then show ?thesis unfolding yes_no_def by blast
next
  assume "map canonicalize t = map canonicalize ''[y/n]''"
  then have "map canonicalize t = map canonicalize ''[y/N]''" by (simp only: fold_bracket)
  then have "test (lit_i ''[y/N]'') (pre @ t @ post)" by (rule test_lit_i)
  then show ?thesis unfolding yes_no_def by blast
qed

text \<open>
  C6, as stated, fails for a yes/no pattern of the specification that the code does not
  test: the phrase \<open>yes/no\<close> occurs only in the \<open>patterns\<close> array of \<open>GeminiDaemon\<close>,
  which \<open>detectChoice\<close> never reads, and a text that ends in it is no choice for either
  daemon.
\<close>

theorem detectChoice_phrase_counterexample:
  "detectChoice Gemini ''Overwrite the file yes/no'' = None \<and>
   detectChoice Claude ''Overwrite the file yes/no'' = None"
  by code_simp

lemma three_lines:
  "detectChoice Gemini (''1) a'' @ [newline] @ ''2) b'' @ [newline] @ ''3) c'')
     = Some \<lparr>options = [''1'', ''2'', ''3''], choice_prompt = ''Select an option (1-3)''\<rparr>"
  "detectChoice Claude (''1) a'' @ [newline] @ ''2) b'' @ [newline] @ ''3) c'')
     = Some \<lparr>options = [''1'', ''2'', ''3''], choice_prompt = ''Select an option (1-3)''\<rparr>"
  by code_simp+

lemma prose:
  "detectChoice Gemini ''The build finished without errors.'' = None"
  "detectChoice Claude ''The build finished without errors.'' = None"
  by code_simp+

text \<open>
  C6, amended. \<open>detectChoice\<close> depends on its text alone. For both daemons: a text that
  contains a parenthesised or bracketed \<open>y/n\<close> in any mix of cases (as
  \<open>Proceed? (y/n)\<close> does at its end) is a choice with options \<open>y\<close> and \<open>n\<close>; the three
  lines \<open>1) a\<close>, \<open>2) b\<close>, \<open>3) c\<close> are a choice with options 1, 2 and 3; a text that
  none of the tested patterns matches is no choice.
\<close>

theorem detectChoice_classifies:
  assumes "map canonicalize t = map canonicalize ''(y/n)'' \<or>
           map canonicalize t = map canonicalize ''[y/n]''"
  shows "map_option options (detectChoice k (pre @ t @ post)) = Some [''y'', ''n''] \<and>
         map_option options (detectChoice k (''1) a'' @ [newline] @ ''2) b'' @ [newline] @ ''3) c''))
           = Some [''1'', ''2'', ''3''] \<and>
         detectChoice k ''The build finished without errors.'' = None \<and>
         (\<not> yes_no out \<and> (k = Claude \<longrightarrow> \<not> (test allow_re out \<and> test (chr (CHR ''?'')) out)) \<and>
          length (match_g numbered_re (None, out)) < 2 \<and> \<not> test (enter_re k) out \<longrightarrow>
            detectChoice k out = None)"
  using yes_no_found[OF assms, of pre post] three_lines prose
  by (cases k) (simp_all add: detectChoice_def numbered_choice_def)

theorem detectChoice_classifies_witness:
  "(map canonicalize ''(y/n)'' = map canonicalize ''(y/n)'' \<or>
    map canonicalize ''(y/n)'' = map canonicalize ''[y/n]'') \<and>
   (map canonicalize ''[Y/n]'' = map canonicalize ''(y/n)'' \<or>
    map canonicalize ''[Y/n]'' = map canonicalize ''[y/n]'') \<and>
   map_option options (detectChoice Gemini ''Proceed? (y/n)'') = Some [''y'', ''n''] \<and>
   map_option options (detectChoice Claude ''Proceed? (y/n)'') = Some [''y'', ''n''] \<and>
   map_option options (detectChoice Claude ''Overwrite the file? [Y/n] '') = Some [''y'', ''n'']"
proof -
  have h: "map canonicalize ''(y/n)'' = map canonicalize ''(y/n)'' \<or>
           map canonicalize ''(y/n)'' = map canonicalize ''[y/n]''"
    by simp
  have g: "map canonicalize ''[Y/n]'' = map canonicalize ''(y/n)'' \<or>
           map canonicalize ''[Y/n]'' = map canonicalize ''[y/n]''"
    by (simp add: canonicalize_def)
  from detectChoice_classifies[OF h, of Gemini "''Proceed? ''" "[]"]
    detectChoice_classifies[OF h, of Claude "''Proceed? ''" "[]"]
    detectChoice_classifies[OF g, of Claude "''Overwrite the file? ''" "'' ''"] h g
  show ?thesis by simp
qed

end
